theory Spec2Isabelle
  imports Main
begin

section \<open>Data model\<close>

text \<open>
  A JavaScript string is a sequence of UTF-16 code units; \<open>data.length\<close> counts them
  and \<open>data.charCodeAt(i)\<close> reads one.  A payload is therefore a list of code units.
  \<open>str\<close> turns a literal into such a list.
\<close>

type_synonym jsstring = "nat list"

definition str :: "string \<Rightarrow> jsstring" where
  "str s = map of_char s"

text \<open>\<open>enum ErrorCorrectionLevel\<close> (types.ts) and \<open>enum DataMode\<close> (qr-generator).\<close>

datatype ErrorCorrectionLevel = L | M | Q | H

datatype DataMode = NUMERIC | ALPHANUMERIC | BYTE | KANJI

text \<open>The numeric value of a \<open>DataMode\<close> member, used as the 4-bit mode indicator.\<close>

fun modeValue :: "DataMode \<Rightarrow> int" where
  "modeValue NUMERIC = 1"
| "modeValue ALPHANUMERIC = 2"
| "modeValue BYTE = 4"
| "modeValue KANJI = 8"

text \<open>
  The exceptions of \<open>QRGenerator\<close>: \<open>"Input data cannot be empty"\<close>,
  \<open>"Data too long for QR code"\<close> and \<open>"Version must be between 1 and 40"\<close>; then the
  entries of \<open>ERROR_MESSAGES\<close> that \<open>ValidationUtils\<close> reports and \<open>QRCode.generate\<close>
  throws.
\<close>

datatype error =
    EmptyInput | DataTooLong | VersionOutOfRange
  | INVALID_DATA | DATA_TOO_LONG | INVALID_VERSION | INVALID_MASK_PATTERN

type_synonym QRMatrix = "bool list list"

section \<open>Mode selection\<close>

text \<open>The character class \<open>\d\<close>, which in JavaScript is \<open>[0-9]\<close>.\<close>

definition isDigit :: "nat \<Rightarrow> bool" where
  "isDigit c = (of_char CHR ''0'' \<le> c \<and> c \<le> of_char CHR ''9'')"

text \<open>The character class \<open>[0-9A-Z $%*+\-./:]\<close>.\<close>

definition isAlphanumericChar :: "nat \<Rightarrow> bool" where
  "isAlphanumericChar c =
     ((of_char CHR ''0'' \<le> c \<and> c \<le> of_char CHR ''9'') \<or>
      (of_char CHR ''A'' \<le> c \<and> c \<le> of_char CHR ''Z'') \<or>
      c = of_char CHR '' '' \<or> c = of_char CHR ''$'' \<or> c = of_char CHR ''%'' \<or>
      c = of_char CHR ''*'' \<or> c = of_char CHR ''+'' \<or> c = of_char CHR ''-'' \<or>
      c = of_char CHR ''.'' \<or> c = of_char CHR ''/'' \<or> c = of_char CHR '':'')"

text \<open>
  \<open>/^C+$/.test(data)\<close> for a character class \<open>C\<close>: without the \<open>m\<close> flag the anchors
  are the two ends of the input, so the test holds iff the input is non-empty and every
  code unit is in the class.
\<close>

definition testPlus :: "(nat \<Rightarrow> bool) \<Rightarrow> jsstring \<Rightarrow> bool" where
  "testPlus cls data = (data \<noteq> [] \<and> list_all cls data)"

definition detectDataMode :: "jsstring \<Rightarrow> DataMode" where
  "detectDataMode data =
     (if testPlus isDigit data then NUMERIC
      else if testPlus isAlphanumericChar data then ALPHANUMERIC
      else BYTE)"

section \<open>Bitstream encoder\<close>

text \<open>
  \<open>toBits(num, bitCount)\<close> pushes \<open>(num >> i) & 1\<close> for \<open>i\<close> from \<open>bitCount - 1\<close> down
  to \<open>0\<close>.  On a 32-bit integer the arithmetic shift is the floor division by \<open>2 ^ i\<close>,
  also for a negative number; every number the generator passes is below \<open>2 ^ 31\<close> in
  absolute value.
\<close>

definition toBits :: "int \<Rightarrow> nat \<Rightarrow> int list" where
  "toBits num bitCount = map (\<lambda>i. (num div 2 ^ i) mod 2) (rev [0..<bitCount])"

fun getCharCountBits :: "DataMode \<Rightarrow> nat" where
  "getCharCountBits NUMERIC = 10"
| "getCharCountBits ALPHANUMERIC = 9"
| "getCharCountBits BYTE = 8"
| "getCharCountBits KANJI = 8"

text \<open>\<open>data.substr(i, len)\<close> for \<open>i\<close>, \<open>len\<close> that are not negative.\<close>

definition substr :: "jsstring \<Rightarrow> nat \<Rightarrow> nat \<Rightarrow> jsstring" where
  "substr data i len = take len (drop i data)"

text \<open>
  \<open>parseInt(group, 10)\<close> on a group \<open>grp\<close> of decimal digits, the only groups that
  \<open>encodeNumeric\<close> receives (\<open>encodeData\<close> calls it in numeric mode only).
\<close>

definition parseInt10 :: "jsstring \<Rightarrow> int" where
  "parseInt10 grp = foldl (\<lambda>acc c. acc * 10 + (int c - int (of_char CHR ''0''))) 0 grp"

function encodeNumeric_loop :: "jsstring \<Rightarrow> nat \<Rightarrow> int list \<Rightarrow> int list" where
  "encodeNumeric_loop data i bits =
     (if i < length data then
        (let grp = substr data i 3;
             value = parseInt10 grp
         in encodeNumeric_loop data (i + 3)
              (bits @ (if length grp = 3 then toBits value 10
                       else if length grp = 2 then toBits value 7
                       else toBits value 4)))
      else bits)"
  by pat_completeness auto
termination
  by (relation "measure (\<lambda>(data, i, bits). length data - i)") auto

declare encodeNumeric_loop.simps [simp del]

definition encodeNumeric :: "jsstring \<Rightarrow> int list" where
  "encodeNumeric data = encodeNumeric_loop data 0 []"

definition alphanumericChars :: jsstring where
  "alphanumericChars = str ''0123456789ABCDEFGHIJKLMNOPQRSTUVWXYZ $%*+-./:''"

text \<open>\<open>s.indexOf(c)\<close> for a single code unit: the first position, or \<open>-1\<close>.\<close>

fun indexOf :: "jsstring \<Rightarrow> nat \<Rightarrow> int" where
  "indexOf [] c = -1"
| "indexOf (x # xs) c = (if x = c then 0 else (let r = indexOf xs c in if r < 0 then -1 else r + 1))"

function encodeAlphanumeric_loop :: "jsstring \<Rightarrow> nat \<Rightarrow> int list \<Rightarrow> int list" where
  "encodeAlphanumeric_loop data i bits =
     (if i < length data then
        (let char1 = indexOf alphanumericChars (data ! i)
         in if i + 1 < length data then
              (let char2 = indexOf alphanumericChars (data ! (i + 1));
                   value = char1 * 45 + char2
               in encodeAlphanumeric_loop data (i + 2) (bits @ toBits value 11))
            else encodeAlphanumeric_loop data (i + 2) (bits @ toBits char1 6))
      else bits)"
  by pat_completeness auto
termination
  by (relation "measure (\<lambda>(data, i, bits). length data - i)") auto

declare encodeAlphanumeric_loop.simps [simp del]

definition encodeAlphanumeric :: "jsstring \<Rightarrow> int list" where
  "encodeAlphanumeric data = encodeAlphanumeric_loop data 0 []"

fun encodeByte_loop :: "jsstring \<Rightarrow> int list \<Rightarrow> int list" where
  "encodeByte_loop [] bits = bits"
| "encodeByte_loop (charCode # rest) bits = encodeByte_loop rest (bits @ toBits (int charCode) 8)"

definition encodeByte :: "jsstring \<Rightarrow> int list" where
  "encodeByte data = encodeByte_loop data []"

text \<open>
  \<open>encodeData\<close>: mode indicator, character count indicator, packed payload.  The
  \<open>switch\<close> has no case for \<open>KANJI\<close>, which \<open>detectDataMode\<close> never returns.
\<close>

definition encodeData :: "jsstring \<Rightarrow> int list" where
  "encodeData data =
     (let mode = detectDataMode data;
          encodedData = toBits (modeValue mode) 4;
          charCountBits = getCharCountBits mode;
          encodedData = encodedData @ toBits (int (length data)) charCountBits
      in case mode of
           NUMERIC \<Rightarrow> encodedData @ encodeNumeric data
         | ALPHANUMERIC \<Rightarrow> encodedData @ encodeAlphanumeric data
         | BYTE \<Rightarrow> encodedData @ encodeByte data
         | KANJI \<Rightarrow> encodedData)"

section \<open>Error correction stage\<close>

text \<open>\<open>addErrorCorrection\<close> returns \<open>[...data]\<close>, a copy of its argument.\<close>

definition addErrorCorrection :: "int list \<Rightarrow> int list" where
  "addErrorCorrection data = data"

section \<open>Version selection\<close>

definition getModuleCount :: "nat \<Rightarrow> nat" where
  "getModuleCount v = 17 + 4 * v"

text \<open>
  \<open>getCapacity\<close> is \<open>Math.floor(version * 10 * errorMultiplier)\<close> with the multipliers
  \<open>1\<close>, \<open>0.8\<close>, \<open>0.6\<close>, \<open>0.4\<close>; the mode only selects a key that is not used.  The
  multipliers are written as tenths here: for every version from 1 to 40, the only ones
  the function is called with, the double-precision product is the exact integer
  \<open>10\<close>, \<open>8\<close>, \<open>6\<close> or \<open>4\<close> times the version.
\<close>

definition getCapacity :: "nat \<Rightarrow> ErrorCorrectionLevel \<Rightarrow> DataMode \<Rightarrow> nat" where
  "getCapacity v errorLevel mode =
     (let baseCapacity = v * 10;
          errorMultiplier = (case errorLevel of L \<Rightarrow> 10 | M \<Rightarrow> 8 | Q \<Rightarrow> 6 | H \<Rightarrow> 4)
      in (baseCapacity * errorMultiplier) div 10)"

function determineVersion_loop :: "nat \<Rightarrow> ErrorCorrectionLevel \<Rightarrow> DataMode \<Rightarrow> nat \<Rightarrow> error + nat" where
  "determineVersion_loop dataLength errorLevel dataMode v =
     (if v \<le> 40 then
        (let capacity = getCapacity v errorLevel dataMode
         in if dataLength \<le> capacity then Inr v
            else determineVersion_loop dataLength errorLevel dataMode (v + 1))
      else Inl DataTooLong)"
  by pat_completeness auto
termination
  by (relation "measure (\<lambda>(dataLength, errorLevel, dataMode, v). 41 - v)") auto

declare determineVersion_loop.simps [simp del]

definition determineVersion :: "jsstring \<Rightarrow> ErrorCorrectionLevel \<Rightarrow> error + nat" where
  "determineVersion data errorLevel =
     (let dataMode = detectDataMode data;
          dataLength = length data
      in determineVersion_loop dataLength errorLevel dataMode 1)"

text \<open>\<open>QRGenerator.validateInput\<close>: \<open>None\<close> when nothing is thrown.\<close>

definition validateInput :: "jsstring \<Rightarrow> nat \<Rightarrow> error option" where
  "validateInput data v =
     (if data = [] then Some EmptyInput
      else if v < 1 \<or> v > 40 then Some VersionOutOfRange
      else None)"

section \<open>Matrix builder\<close>

text \<open>
  The matrix is \<open>matrix[y][x]\<close>, a list of rows.  Every function below reads
  \<open>this.modules\<close>, passed as \<open>n\<close>; it is \<open>17 + 4 * version\<close>, so at least 17, and every
  coordinate the code computes is a natural number.
\<close>

definition setModule :: "QRMatrix \<Rightarrow> nat \<Rightarrow> nat \<Rightarrow> bool \<Rightarrow> QRMatrix" where
  "setModule m x y b = m[y := (m ! y)[x := b]]"

definition isInBounds :: "nat \<Rightarrow> nat \<Rightarrow> nat \<Rightarrow> bool" where
  "isInBounds n x y = (x < n \<and> y < n)"

definition isEmpty :: "nat \<Rightarrow> nat \<Rightarrow> bool" where
  "isEmpty x y = True"

definition isFinderPattern :: "nat \<Rightarrow> nat \<Rightarrow> nat \<Rightarrow> bool" where
  "isFinderPattern n x y =
     ((x < 9 \<and> y < 9) \<or> (x \<ge> n - 8 \<and> y < 9) \<or> (x < 9 \<and> y \<ge> n - 8))"

definition isDataModule :: "nat \<Rightarrow> nat \<Rightarrow> nat \<Rightarrow> bool" where
  "isDataModule n x y = (\<not> isFinderPattern n x y \<and> x \<noteq> 6 \<and> y \<noteq> 6)"

definition initializeMatrix :: "nat \<Rightarrow> QRMatrix" where
  "initializeMatrix n = replicate n (replicate n False)"

definition finderPattern :: "bool list list" where
  "finderPattern =
     [[True, True, True, True, True, True, True],
      [True, False, False, False, False, False, True],
      [True, False, True, True, True, False, True],
      [True, False, True, True, True, False, True],
      [True, False, True, True, True, False, True],
      [True, False, False, False, False, False, True],
      [True, True, True, True, True, True, True]]"

definition addFinderPattern :: "nat \<Rightarrow> nat \<Rightarrow> nat \<Rightarrow> QRMatrix \<Rightarrow> QRMatrix" where
  "addFinderPattern n startX startY m =
     fold (\<lambda>y. fold (\<lambda>x m'.
             if isInBounds n (startX + x) (startY + y)
             then setModule m' (startX + x) (startY + y) (finderPattern ! y ! x)
             else m') [0..<7]) [0..<7] m"

definition addFinderPatterns :: "nat \<Rightarrow> QRMatrix \<Rightarrow> QRMatrix" where
  "addFinderPatterns n m =
     fold (\<lambda>(x, y). addFinderPattern n x y) [(0, 0), (n - 7, 0), (0, n - 7)] m"

definition addSeparator :: "nat \<Rightarrow> nat \<Rightarrow> nat \<Rightarrow> nat \<Rightarrow> nat \<Rightarrow> QRMatrix \<Rightarrow> QRMatrix" where
  "addSeparator n startX startY width height m =
     fold (\<lambda>y. fold (\<lambda>x m'.
             if isInBounds n x y \<and> isEmpty x y
             then (if \<not> isFinderPattern n x y then setModule m' x y False else m')
             else m') [startX..<startX + width]) [startY..<startY + height] m"

definition addSeparators :: "nat \<Rightarrow> QRMatrix \<Rightarrow> QRMatrix" where
  "addSeparators n m =
     addSeparator n 0 (n - 8) 8 8 (addSeparator n (n - 8) 0 8 8 (addSeparator n 0 0 8 8 m))"

definition getAlignmentPatternPositions :: "nat \<Rightarrow> nat \<Rightarrow> (nat \<times> nat) list" where
  "getAlignmentPatternPositions v n =
     (if v = 2 then [(16, 16)]
      else if v \<ge> 3 then (let step = (n - 13) div 2 in [(step, step)])
      else [])"

definition alignmentPattern :: "bool list list" where
  "alignmentPattern =
     [[True, True, True, True, True],
      [True, False, False, False, True],
      [True, False, True, False, True],
      [True, False, False, False, True],
      [True, True, True, True, True]]"

text \<open>
  The loops of \<open>addAlignmentPattern\<close> run \<open>x\<close>, \<open>y\<close> from \<open>-2\<close> to \<open>2\<close>; here \<open>dx = x + 2\<close>
  and \<open>dy = y + 2\<close>, and the test \<open>2 \<le> centerX + dx\<close> is the \<open>posX >= 0\<close> of
  \<open>isInBounds\<close>.
\<close>

definition addAlignmentPattern :: "nat \<Rightarrow> nat \<Rightarrow> nat \<Rightarrow> QRMatrix \<Rightarrow> QRMatrix" where
  "addAlignmentPattern n centerX centerY m =
     fold (\<lambda>dy. fold (\<lambda>dx m'.
             if 2 \<le> centerX + dx \<and> 2 \<le> centerY + dy
                \<and> isInBounds n (centerX + dx - 2) (centerY + dy - 2)
                \<and> isEmpty (centerX + dx - 2) (centerY + dy - 2)
             then setModule m' (centerX + dx - 2) (centerY + dy - 2) (alignmentPattern ! dy ! dx)
             else m') [0..<5]) [0..<5] m"

definition addAlignmentPatterns :: "nat \<Rightarrow> nat \<Rightarrow> QRMatrix \<Rightarrow> QRMatrix" where
  "addAlignmentPatterns v n m =
     (if v < 2 then m
      else fold (\<lambda>(x, y). addAlignmentPattern n x y) (getAlignmentPatternPositions v n) m)"

definition addTimingPatterns :: "nat \<Rightarrow> QRMatrix \<Rightarrow> QRMatrix" where
  "addTimingPatterns n m =
     (let m1 = fold (\<lambda>x m'. if isEmpty x 6 then setModule m' x 6 (x mod 2 = 0) else m')
                 [8..<n - 8] m
      in fold (\<lambda>y m'. if isEmpty 6 y then setModule m' 6 y (y mod 2 = 0) else m')
                 [8..<n - 8] m1)"

definition addDarkModule :: "nat \<Rightarrow> nat \<Rightarrow> QRMatrix \<Rightarrow> QRMatrix" where
  "addDarkModule v n m =
     (let x = 8; y = 4 * v + 9
      in if isInBounds n x y then setModule m x y True else m)"

text \<open>\<open>reserveFormatInfo\<close> and \<open>reserveVersionInfo\<close> have empty bodies.\<close>

definition reserveFormatInfo :: "QRMatrix \<Rightarrow> QRMatrix" where
  "reserveFormatInfo m = m"

definition reserveVersionInfo :: "QRMatrix \<Rightarrow> QRMatrix" where
  "reserveVersionInfo m = m"

text \<open>
  \<open>placeDataModules\<close>.  The state of the loops is the matrix and \<open>dataIndex\<close>;
  \<open>up\<close> is \<open>direction === -1\<close>.  One step of the two inner loops:
\<close>

definition placeCell :: "nat \<Rightarrow> int list \<Rightarrow> nat \<Rightarrow> bool \<Rightarrow> nat \<Rightarrow> nat \<Rightarrow> QRMatrix \<times> nat \<Rightarrow> QRMatrix \<times> nat" where
  "placeCell n data col up count c st =
     (let x = col - c;
          y = (if up then n - 1 - count else count)
      in if isInBounds n x y \<and> isEmpty x y
         then (if snd st < length data
               then (setModule (fst st) x y (data ! snd st = 1), snd st + 1)
               else (setModule (fst st) x y False, snd st))
         else st)"

definition placeColumn :: "nat \<Rightarrow> int list \<Rightarrow> nat \<Rightarrow> bool \<Rightarrow> QRMatrix \<times> nat \<Rightarrow> QRMatrix \<times> nat" where
  "placeColumn n data col up st =
     fold (\<lambda>count. fold (placeCell n data col up count) [0..<2]) [0..<n] st"

text \<open>
  The outer loop \<open>for (col = modules - 1; col > 0; col -= 2)\<close> with its
  \<open>if (col === 6) col--\<close>.  After the body \<open>col\<close> drops by two; below two the result is
  not positive and the loop ends.
\<close>

function placeDataModules_loop :: "nat \<Rightarrow> int list \<Rightarrow> nat \<Rightarrow> bool \<Rightarrow> QRMatrix \<times> nat \<Rightarrow> QRMatrix \<times> nat" where
  "placeDataModules_loop n data col up st =
     (if col > 0 then
        (let col' = (if col = 6 then col - 1 else col);
             st' = placeColumn n data col' up st
         in if col' < 2 then st'
            else placeDataModules_loop n data (col' - 2) (\<not> up) st')
      else st)"
  by pat_completeness auto
termination
  by (relation "measure (\<lambda>(n, data, col, up, st). col)") auto

declare placeDataModules_loop.simps [simp del]

definition placeDataModules :: "nat \<Rightarrow> int list \<Rightarrow> QRMatrix \<Rightarrow> QRMatrix" where
  "placeDataModules n data m = fst (placeDataModules_loop n data (n - 1) True (m, 0))"

section \<open>Mask evaluator\<close>

definition shouldApplyMask :: "nat \<Rightarrow> nat \<Rightarrow> nat \<Rightarrow> bool" where
  "shouldApplyMask x y pattern =
     (if pattern = 0 then (x + y) mod 2 = 0
      else if pattern = 1 then y mod 2 = 0
      else if pattern = 2 then x mod 3 = 0
      else if pattern = 3 then (x + y) mod 3 = 0
      else if pattern = 4 then (y div 2 + x div 3) mod 2 = 0
      else if pattern = 5 then (x * y) mod 2 + (x * y) mod 3 = 0
      else if pattern = 6 then ((x * y) mod 2 + (x * y) mod 3) mod 2 = 0
      else if pattern = 7 then ((x + y) mod 2 + (x * y) mod 3) mod 2 = 0
      else False)"

definition applyMaskToMatrix :: "nat \<Rightarrow> QRMatrix \<Rightarrow> nat \<Rightarrow> QRMatrix" where
  "applyMaskToMatrix n m pattern =
     fold (\<lambda>y. fold (\<lambda>x m'.
             if isDataModule n x y \<and> shouldApplyMask x y pattern
             then setModule m' x y (\<not> m' ! y ! x)
             else m') [0..<n]) [0..<n] m"

definition applyMask :: "nat \<Rightarrow> QRMatrix \<Rightarrow> nat \<Rightarrow> QRMatrix" where
  "applyMask n m pattern = applyMaskToMatrix n m pattern"

text \<open>
  One line of rule 1: the state is \<open>(count, penalty)\<close>, \<open>same k\<close> says that module \<open>k\<close>
  of the line has the colour of module \<open>k - 1\<close>.
\<close>

definition runStep :: "(nat \<Rightarrow> bool) \<Rightarrow> nat \<Rightarrow> nat \<times> nat \<Rightarrow> nat \<times> nat" where
  "runStep same k st =
     (if same k then (fst st + 1, snd st)
      else (1, if fst st \<ge> 5 then snd st + (fst st - 2) else snd st))"

definition runLine :: "nat \<Rightarrow> (nat \<Rightarrow> bool) \<Rightarrow> nat \<Rightarrow> nat" where
  "runLine n same penalty =
     (let st = fold (runStep same) [1..<n] (1, penalty)
      in if fst st \<ge> 5 then snd st + (fst st - 2) else snd st)"

definition calculateAdjacentPenalty :: "nat \<Rightarrow> QRMatrix \<Rightarrow> nat" where
  "calculateAdjacentPenalty n m =
     (let penalty = fold (\<lambda>y. runLine n (\<lambda>x. m ! y ! x = m ! y ! (x - 1))) [0..<n] 0
      in fold (\<lambda>x. runLine n (\<lambda>y. m ! y ! x = m ! (y - 1) ! x)) [0..<n] penalty)"

definition calculateBlockPenalty :: "nat \<Rightarrow> QRMatrix \<Rightarrow> nat" where
  "calculateBlockPenalty n m =
     fold (\<lambda>y. fold (\<lambda>x penalty.
             (let color = m ! y ! x
              in if m ! y ! (x + 1) = color \<and> m ! (y + 1) ! x = color
                    \<and> m ! (y + 1) ! (x + 1) = color
                 then penalty + 3 else penalty)) [0..<n - 1]) [0..<n - 1] 0"

definition calculateMaskPenalty :: "nat \<Rightarrow> QRMatrix \<Rightarrow> nat" where
  "calculateMaskPenalty n m = calculateAdjacentPenalty n m + calculateBlockPenalty n m"

text \<open>
  \<open>selectBestMaskPattern\<close>: the state is \<open>(bestPattern, lowestPenalty)\<close>, and
  \<open>lowestPenalty\<close> starts as \<open>Infinity\<close>, here \<open>None\<close>.
\<close>

definition selectStep :: "nat \<Rightarrow> QRMatrix \<Rightarrow> nat \<Rightarrow> nat \<times> nat option \<Rightarrow> nat \<times> nat option" where
  "selectStep n m pattern st =
     (let testMatrix = applyMaskToMatrix n m pattern;
          penalty = calculateMaskPenalty n testMatrix
      in if (case snd st of None \<Rightarrow> True | Some lowestPenalty \<Rightarrow> penalty < lowestPenalty)
         then (pattern, Some penalty)
         else st)"

definition selectBestMaskPattern :: "nat \<Rightarrow> QRMatrix \<Rightarrow> nat" where
  "selectBestMaskPattern n m = fst (fold (selectStep n m) [0..<8] (0, None))"

section \<open>Metadata embedder\<close>

text \<open>
  \<open>addFormatInfo\<close> and \<open>addVersionInfo\<close> compute the information bits and write
  nothing into the matrix.
\<close>

definition generateFormatInfo :: "ErrorCorrectionLevel \<Rightarrow> nat \<Rightarrow> int list" where
  "generateFormatInfo level pattern =
     (let errorCorrectionBits =
            (case level of L \<Rightarrow> [0, 1] | M \<Rightarrow> [0, 0] | Q \<Rightarrow> [1, 1] | H \<Rightarrow> [1, 0]);
          maskBits = toBits (int pattern) 3
      in errorCorrectionBits @ maskBits)"

definition addFormatInfo :: "QRMatrix \<Rightarrow> QRMatrix" where
  "addFormatInfo m = m"

definition addVersionInfo :: "QRMatrix \<Rightarrow> QRMatrix" where
  "addVersionInfo m = m"

section \<open>The generator\<close>

text \<open>
  JavaScript's \<open>a || b\<close> on an optional number: \<open>undefined\<close> and \<open>0\<close> are falsy.
\<close>

definition truthy :: "nat option \<Rightarrow> bool" where
  "truthy a = (case a of None \<Rightarrow> False | Some k \<Rightarrow> k \<noteq> 0)"

text \<open>
  The statements of \<open>generate\<close> from \<open>initializeMatrix\<close> to \<open>placeDataModules\<close>: the
  matrix before masking, for a resolved version \<open>v\<close>.
\<close>

definition buildMatrix :: "jsstring \<Rightarrow> nat \<Rightarrow> QRMatrix" where
  "buildMatrix inputData v =
     (let n = getModuleCount v;
          m = initializeMatrix n;
          m = addFinderPatterns n m;
          m = addSeparators n m;
          m = addAlignmentPatterns v n m;
          m = addTimingPatterns n m;
          m = addDarkModule v n m;
          m = reserveFormatInfo m;
          m = (if v \<ge> 7 then reserveVersionInfo m else m);
          encodedData = encodeData inputData;
          finalData = addErrorCorrection encodedData
      in placeDataModules n finalData m)"

text \<open>The fields of a \<open>QRGenerator\<close> object.\<close>

record QRGenerator =
  matrix :: QRMatrix
  version :: nat
  errorCorrectionLevel :: ErrorCorrectionLevel
  maskPattern :: nat
  modules :: nat

text \<open>
  \<open>generate(data, errorCorrectionLevel, version?, maskPattern?)\<close> on a string payload.
  Every field of the object is assigned before it is read, so the result does not depend
  on the object's earlier state; the result is the object after the call, whose
  \<open>matrix\<close> is the value returned, or the exception thrown.
\<close>

definition generate :: "jsstring \<Rightarrow> ErrorCorrectionLevel \<Rightarrow> nat option \<Rightarrow> nat option \<Rightarrow> error + QRGenerator" where
  "generate inputData level forcedVersion forcedMask =
     (case (if truthy forcedVersion then Inr (the forcedVersion)
            else determineVersion inputData level) of
        Inl e \<Rightarrow> Inl e
      | Inr v \<Rightarrow>
          (case validateInput inputData v of
             Some e \<Rightarrow> Inl e
           | None \<Rightarrow>
               (let n = getModuleCount v;
                    m = buildMatrix inputData v;
                    pattern = (case forcedMask of Some p \<Rightarrow> p | None \<Rightarrow> selectBestMaskPattern n m);
                    m = applyMask n m pattern;
                    m = addFormatInfo m;
                    m = (if v \<ge> 7 then addVersionInfo m else m)
                in Inr \<lparr> matrix = m, version = v, errorCorrectionLevel = level,
                         maskPattern = pattern, modules = n \<rparr>)))"

section \<open>Validation and the public entry point\<close>

text \<open>
  \<open>QRCodeOptions\<close> restricted to the fields the generator receives; colours, margin,
  scale, logo and the output format only reach the rendering of the finished matrix.
\<close>

record QRCodeOptions =
  opt_errorCorrectionLevel :: "ErrorCorrectionLevel option"
  opt_version :: "nat option"
  opt_maskPattern :: "nat option"

text \<open>\<open>QRCodeOptionsInternal\<close>, the result of \<open>mergeOptions\<close>, on the same fields.\<close>

record QRCodeOptionsInternal =
  int_errorCorrectionLevel :: ErrorCorrectionLevel
  int_version :: "nat option"
  int_maskPattern :: "nat option"

text \<open>\<open>ValidationUtils.validateData\<close> on a string: \<open>None\<close> is \<open>{ valid: true }\<close>.\<close>

definition validateData :: "jsstring \<Rightarrow> error option" where
  "validateData data = (if length data = 0 then Some INVALID_DATA else None)"

definition validateVersion :: "nat \<Rightarrow> error option" where
  "validateVersion v = (if v < 1 \<or> v > 40 then Some INVALID_VERSION else None)"

definition validateMaskPattern :: "nat \<Rightarrow> error option" where
  "validateMaskPattern pattern = (if pattern > 7 then Some INVALID_MASK_PATTERN else None)"

definition validateOptions :: "QRCodeOptions \<Rightarrow> error option" where
  "validateOptions options =
     (case (case opt_version options of None \<Rightarrow> None | Some v \<Rightarrow> validateVersion v) of
        Some e \<Rightarrow> Some e
      | None \<Rightarrow>
          (case opt_maskPattern options of None \<Rightarrow> None | Some p \<Rightarrow> validateMaskPattern p))"

text \<open>
  \<open>getCapacityForVersion\<close> is \<open>Math.floor(baseCapacity * modeMultiplier * errorMultiplier)\<close>
  with mode multipliers \<open>2.4\<close>, \<open>1.8\<close>, \<open>1\<close> and error multipliers \<open>1\<close>, \<open>0.8\<close>, \<open>0.6\<close>,
  \<open>0.4\<close>, written as tenths here; for every version from 1 to 40 the double-precision
  result is the floor of the exact product.
\<close>

definition getCapacityForVersion :: "nat \<Rightarrow> ErrorCorrectionLevel \<Rightarrow> DataMode \<Rightarrow> nat" where
  "getCapacityForVersion v errorLevel mode =
     (let baseCapacity = (if v = 1 then 25 else v * 15);
          modeMultiplier = (if mode = NUMERIC then 24 else if mode = ALPHANUMERIC then 18 else 10);
          errorMultiplier = (case errorLevel of L \<Rightarrow> 10 | M \<Rightarrow> 8 | Q \<Rightarrow> 6 | H \<Rightarrow> 4)
      in (baseCapacity * modeMultiplier * errorMultiplier) div 100)"

function validateCapacity_loop :: "nat \<Rightarrow> ErrorCorrectionLevel \<Rightarrow> DataMode \<Rightarrow> nat \<Rightarrow> error + nat option" where
  "validateCapacity_loop dataLength errorLevel mode v =
     (if v \<le> 40 then
        (let capacity = getCapacityForVersion v errorLevel mode
         in if dataLength \<le> capacity then Inr (Some v)
            else validateCapacity_loop dataLength errorLevel mode (v + 1))
      else Inl DATA_TOO_LONG)"
  by pat_completeness auto
termination
  by (relation "measure (\<lambda>(dataLength, errorLevel, mode, v). 41 - v)") auto

declare validateCapacity_loop.simps [simp del]

text \<open>
  \<open>validateCapacity\<close>: an error, or the \<open>suggestedVersion\<close> of a valid result, which is
  only set when no version was given.
\<close>

definition validateCapacity :: "jsstring \<Rightarrow> QRCodeOptions \<Rightarrow> error + nat option" where
  "validateCapacity data options =
     (let errorLevel = (case opt_errorCorrectionLevel options of Some l \<Rightarrow> l | None \<Rightarrow> M);
          dataLength = length data;
          mode = detectDataMode data
      in if truthy (opt_version options) then
           (let capacity = getCapacityForVersion (the (opt_version options)) errorLevel mode
            in if dataLength > capacity then Inl DATA_TOO_LONG else Inr None)
         else validateCapacity_loop dataLength errorLevel mode 1)"

definition ValidationUtils_validateInput :: "jsstring \<Rightarrow> QRCodeOptions \<Rightarrow> error + nat option" where
  "ValidationUtils_validateInput data options =
     (case validateData data of
        Some e \<Rightarrow> Inl e
      | None \<Rightarrow>
          (case validateOptions options of
             Some e \<Rightarrow> Inl e
           | None \<Rightarrow> validateCapacity data options))"

definition mergeOptions :: "QRCodeOptions \<Rightarrow> QRCodeOptionsInternal" where
  "mergeOptions options =
     \<lparr> int_errorCorrectionLevel =
         (case opt_errorCorrectionLevel options of Some l \<Rightarrow> l | None \<Rightarrow> M),
       int_version = (if truthy (opt_version options) then opt_version options else None),
       int_maskPattern = (if truthy (opt_maskPattern options) then opt_maskPattern options else None) \<rparr>"

text \<open>
  \<open>QRCode.generate\<close> up to the rendering: validation, option merging and the call of
  the generator, whose state after the call provides the \<open>version\<close>, \<open>maskPattern\<close> and
  \<open>modules\<close> of the result.
\<close>

definition QRCode_generate :: "jsstring \<Rightarrow> QRCodeOptions \<Rightarrow> error + QRGenerator" where
  "QRCode_generate data options =
     (case ValidationUtils_validateInput data options of
        Inl e \<Rightarrow> Inl e
      | Inr suggestedVersion \<Rightarrow>
          (let finalOptions = mergeOptions options
           in generate data (int_errorCorrectionLevel finalOptions)
                (if truthy suggestedVersion then suggestedVersion else int_version finalOptions)
                (int_maskPattern finalOptions)))"

section \<open>Constants and the penalty rules of the specification\<close>

text \<open>\<open>VERSION_SPECS[v].capacity\<close>, the data capacity in bits, for the versions listed.\<close>

definition VERSION_SPECS_capacity :: "nat \<Rightarrow> ErrorCorrectionLevel \<Rightarrow> nat option" where
  "VERSION_SPECS_capacity v level =
     (if v = 1 then Some (case level of L \<Rightarrow> 152 | M \<Rightarrow> 128 | Q \<Rightarrow> 104 | H \<Rightarrow> 72)
      else if v = 2 then Some (case level of L \<Rightarrow> 272 | M \<Rightarrow> 224 | Q \<Rightarrow> 176 | H \<Rightarrow> 128)
      else if v = 3 then Some (case level of L \<Rightarrow> 440 | M \<Rightarrow> 352 | Q \<Rightarrow> 272 | H \<Rightarrow> 208)
      else if v = 4 then Some (case level of L \<Rightarrow> 640 | M \<Rightarrow> 512 | Q \<Rightarrow> 384 | H \<Rightarrow> 288)
      else if v = 5 then Some (case level of L \<Rightarrow> 864 | M \<Rightarrow> 688 | Q \<Rightarrow> 496 | H \<Rightarrow> 368)
      else if v = 40 then Some (case level of L \<Rightarrow> 23648 | M \<Rightarrow> 18672 | Q \<Rightarrow> 13328 | H \<Rightarrow> 10208)
      else None)"

text \<open>
  \<open>CAPACITY_TABLE[mode][v]\<close>, the character capacities of the constants file, which
  lists versions 1, 2 and 40 only.  \<open>QRGenerator\<close> imports the table and does not read it.
\<close>

definition CAPACITY_TABLE :: "DataMode \<Rightarrow> nat \<Rightarrow> ErrorCorrectionLevel \<Rightarrow> nat option" where
  "CAPACITY_TABLE mode v level =
     (case mode of
        NUMERIC \<Rightarrow>
          (if v = 1 then Some (case level of L \<Rightarrow> 41 | M \<Rightarrow> 34 | Q \<Rightarrow> 27 | H \<Rightarrow> 17)
           else if v = 2 then Some (case level of L \<Rightarrow> 77 | M \<Rightarrow> 63 | Q \<Rightarrow> 48 | H \<Rightarrow> 34)
           else if v = 40 then Some (case level of L \<Rightarrow> 7089 | M \<Rightarrow> 5596 | Q \<Rightarrow> 3993 | H \<Rightarrow> 3057)
           else None)
      | ALPHANUMERIC \<Rightarrow>
          (if v = 1 then Some (case level of L \<Rightarrow> 25 | M \<Rightarrow> 20 | Q \<Rightarrow> 16 | H \<Rightarrow> 10)
           else if v = 2 then Some (case level of L \<Rightarrow> 47 | M \<Rightarrow> 38 | Q \<Rightarrow> 29 | H \<Rightarrow> 20)
           else if v = 40 then Some (case level of L \<Rightarrow> 4296 | M \<Rightarrow> 3391 | Q \<Rightarrow> 2420 | H \<Rightarrow> 1852)
           else None)
      | BYTE \<Rightarrow>
          (if v = 1 then Some (case level of L \<Rightarrow> 17 | M \<Rightarrow> 14 | Q \<Rightarrow> 11 | H \<Rightarrow> 7)
           else if v = 2 then Some (case level of L \<Rightarrow> 32 | M \<Rightarrow> 26 | Q \<Rightarrow> 20 | H \<Rightarrow> 14)
           else if v = 40 then Some (case level of L \<Rightarrow> 2953 | M \<Rightarrow> 2331 | Q \<Rightarrow> 1663 | H \<Rightarrow> 1273)
           else None)
      | KANJI \<Rightarrow> None)"

text \<open>
  The two penalty rules that the specification lists and \<open>calculateMaskPenalty\<close> does
  not compute, written from the specification's words, to compare the mask it would
  select with the one the code selects.  Rule 3: each occurrence, in a row or a column,
  of the dark-light-dark-dark-dark-light-dark sequence with four light modules before
  or after it costs 40.
\<close>

definition spec_finderLike :: "bool list \<Rightarrow> bool" where
  "spec_finderLike w =
     (w = [True, False, True, True, True, False, True, False, False, False, False]
      \<or> w = [False, False, False, False, True, False, True, True, True, False, True])"

definition spec_finderLikeCount :: "nat \<Rightarrow> bool list \<Rightarrow> nat" where
  "spec_finderLikeCount n line =
     length (filter (\<lambda>k. spec_finderLike (take 11 (drop k line))) [0..<n - 10])"

definition spec_rule3 :: "nat \<Rightarrow> QRMatrix \<Rightarrow> nat" where
  "spec_rule3 n m =
     40 * (sum_list (map (spec_finderLikeCount n) m)
         + sum_list (map (\<lambda>x. spec_finderLikeCount n (map (\<lambda>row. row ! x) m)) [0..<n]))"

text \<open>
  Rule 4: the dark percentage lies between two neighbouring multiples of 5; the penalty
  is 10, the weight of the QR standard, for each step of 5 by which the nearer of the
  two to 50 is away from 50.
\<close>

definition spec_rule4 :: "nat \<Rightarrow> QRMatrix \<Rightarrow> nat" where
  "spec_rule4 n m =
     (let dark = int (length (filter id (concat m)));
          prev = ((dark * 100) div (int n * int n)) div 5 * 5;
          next = prev + 5
      in nat (10 * min (\<bar>prev - 50\<bar> div 5) (\<bar>next - 50\<bar> div 5)))"

definition spec_fourRulePenalty :: "nat \<Rightarrow> QRMatrix \<Rightarrow> nat" where
  "spec_fourRulePenalty n m =
     calculateAdjacentPenalty n m + calculateBlockPenalty n m + spec_rule3 n m + spec_rule4 n m"

text \<open>A matrix of \<open>n\<close> rows of \<open>n\<close> modules.\<close>

definition square :: "nat \<Rightarrow> QRMatrix \<Rightarrow> bool" where
  "square n m = (length m = n \<and> list_all (\<lambda>row. length row = n) m)"

text \<open>The result of \<open>generate\<close> once the version is resolved and the input is valid.\<close>

definition generated :: "jsstring \<Rightarrow> ErrorCorrectionLevel \<Rightarrow> nat \<Rightarrow> nat option \<Rightarrow> QRGenerator" where
  "generated data level v forcedMask =
     (let n = getModuleCount v;
          p = (case forcedMask of Some p \<Rightarrow> p | None \<Rightarrow> selectBestMaskPattern n (buildMatrix data v))
      in \<lparr> matrix = applyMask n (buildMatrix data v) p, version = v,
           errorCorrectionLevel = level, maskPattern = p, modules = n \<rparr>)"

section \<open>Properties of the bitstream encoder\<close>

lemma length_toBits: "length (toBits num k) = k"
  by (simp add: toBits_def)

lemma encodeNumeric_loop_pre:
  "encodeNumeric_loop data i (pre @ bits) = pre @ encodeNumeric_loop data i bits"
proof (induction data i bits arbitrary: pre rule: encodeNumeric_loop.induct)
  case (1 data i bits)
  show ?case
  proof (cases "i < length data")
    case False
    then show ?thesis
      by (simp add: encodeNumeric_loop.simps[of data i])
  next
    case True
    let ?g = "substr data i 3"
    let ?w = "(if length ?g = 3 then toBits (parseInt10 ?g) 10
               else if length ?g = 2 then toBits (parseInt10 ?g) 7 else toBits (parseInt10 ?g) 4)"
    have "encodeNumeric_loop data i (pre @ bits) = encodeNumeric_loop data (i + 3) (pre @ (bits @ ?w))"
      using True by (subst encodeNumeric_loop.simps) (simp add: Let_def)
    also have "\<dots> = pre @ encodeNumeric_loop data (i + 3) (bits @ ?w)"
      using "1.IH"[OF True refl refl] .
    also have "\<dots> = pre @ encodeNumeric_loop data i bits"
      using True by (subst (2) encodeNumeric_loop.simps) (simp add: Let_def)
    finally show ?thesis .
  qed
qed

lemma encodeNumeric_loop_acc:
  "encodeNumeric_loop data i bits = bits @ encodeNumeric_loop data i []"
  using encodeNumeric_loop_pre[of data i bits "[]"] by simp

lemma encodeNumeric_loop_shift:
  "encodeNumeric_loop (pre @ data) (length pre + i) bits = encodeNumeric_loop data i bits"
proof (induction data i bits rule: encodeNumeric_loop.induct)
  case (1 data i bits)
  show ?case
  proof (cases "i < length data")
    case False
    then show ?thesis
      by (simp add: encodeNumeric_loop.simps[of data i] encodeNumeric_loop.simps[of "pre @ data"])
  next
    case True
    have g: "substr (pre @ data) (length pre + i) 3 = substr data i 3"
      by (simp add: substr_def)
    have "encodeNumeric_loop (pre @ data) (length pre + i) bits =
          encodeNumeric_loop (pre @ data) (length pre + (i + 3))
            (bits @ (if length (substr data i 3) = 3 then toBits (parseInt10 (substr data i 3)) 10
                     else if length (substr data i 3) = 2 then toBits (parseInt10 (substr data i 3)) 7
                     else toBits (parseInt10 (substr data i 3)) 4))"
      using True by (subst encodeNumeric_loop.simps) (simp add: Let_def g add.assoc)
    also have "\<dots> = encodeNumeric_loop data (i + 3)
            (bits @ (if length (substr data i 3) = 3 then toBits (parseInt10 (substr data i 3)) 10
                     else if length (substr data i 3) = 2 then toBits (parseInt10 (substr data i 3)) 7
                     else toBits (parseInt10 (substr data i 3)) 4))"
      using "1.IH"[OF True refl refl] .
    also have "\<dots> = encodeNumeric_loop data i bits"
      using True by (subst (2) encodeNumeric_loop.simps) (simp add: Let_def)
    finally show ?thesis .
  qed
qed

lemma encodeNumeric_Nil: "encodeNumeric [] = []"
  by (simp add: encodeNumeric_def encodeNumeric_loop.simps)

lemma encodeNumeric_one: "encodeNumeric [a] = toBits (parseInt10 [a]) 4"
  by (simp add: encodeNumeric_def encodeNumeric_loop.simps substr_def)

lemma encodeNumeric_two: "encodeNumeric [a, b] = toBits (parseInt10 [a, b]) 7"
  by (simp add: encodeNumeric_def encodeNumeric_loop.simps substr_def)

lemma encodeNumeric_three:
  "encodeNumeric (a # b # c # rest) = toBits (parseInt10 [a, b, c]) 10 @ encodeNumeric rest"
proof -
  let ?w = "toBits (parseInt10 [a, b, c]) 10"
  have "encodeNumeric (a # b # c # rest) = encodeNumeric_loop ([a, b, c] @ rest) 3 ?w"
    unfolding encodeNumeric_def by (subst encodeNumeric_loop.simps) (simp add: substr_def)
  also have "\<dots> = encodeNumeric_loop rest 0 ?w"
    using encodeNumeric_loop_shift[of "[a, b, c]" rest 0 ?w] by (simp add: numeral_3_eq_3)
  also have "\<dots> = ?w @ encodeNumeric rest"
    unfolding encodeNumeric_def by (rule encodeNumeric_loop_acc)
  finally show ?thesis .
qed

lemma length_encodeNumeric:
  "length (encodeNumeric data) =
     10 * (length data div 3) + (if length data mod 3 = 2 then 7 else if length data mod 3 = 1 then 4 else 0)"
proof (induction "length data" arbitrary: data rule: less_induct)
  case less
  show ?case
  proof (cases data)
    case Nil
    then show ?thesis by (simp add: encodeNumeric_Nil)
  next
    case (Cons a d1)
    note c1 = this
    show ?thesis
    proof (cases d1)
      case Nil
      then show ?thesis using c1 by (simp add: encodeNumeric_one length_toBits)
    next
      case (Cons b d2)
      note c2 = this
      show ?thesis
      proof (cases d2)
        case Nil
        then show ?thesis using c1 c2 by (simp add: encodeNumeric_two length_toBits)
      next
        case (Cons c rest)
        have "length rest < length data" using c1 c2 Cons by simp
        from less[OF this] show ?thesis
          using c1 c2 Cons by (simp add: encodeNumeric_three length_toBits div_add_self1)
      qed
    qed
  qed
qed

lemma set_toBits: "set (toBits num k) \<subseteq> {0, 1}"
  by (auto simp: toBits_def)

lemma length_encodeAlphanumeric_loop:
  "length (encodeAlphanumeric_loop data i bits) =
     length bits + 11 * ((length data - i) div 2) + 6 * ((length data - i) mod 2)"
proof (induction data i bits rule: encodeAlphanumeric_loop.induct)
  case (1 data i bits)
  show ?case
  proof (cases "i < length data")
    case False
    then show ?thesis by (simp add: encodeAlphanumeric_loop.simps[of data i])
  next
    case True
    show ?thesis
    proof (cases "i + 1 < length data")
      case True
      then have k: "length data - i = (length data - (i + 2)) + 2"
        by arith
      show ?thesis
        using True \<open>i < length data\<close> "1.IH"(1)[OF \<open>i < length data\<close> refl True refl refl] k
        by (subst encodeAlphanumeric_loop.simps) (simp add: Let_def length_toBits)
    next
      case False
      with True have e: "length data - i = 1" "length data - (i + 2) = 0" by auto
      show ?thesis
        using False True "1.IH"(2)[OF True refl False] e
        by (subst encodeAlphanumeric_loop.simps) (simp add: Let_def length_toBits)
    qed
  qed
qed

lemma length_encodeAlphanumeric:
  "length (encodeAlphanumeric data) = 11 * (length data div 2) + 6 * (length data mod 2)"
  by (simp add: encodeAlphanumeric_def length_encodeAlphanumeric_loop)

lemma set_encodeAlphanumeric_loop:
  "set bits \<subseteq> {0, 1} \<Longrightarrow> set (encodeAlphanumeric_loop data i bits) \<subseteq> {0, 1}"
proof (induction data i bits rule: encodeAlphanumeric_loop.induct)
  case (1 data i bits)
  show ?case
  proof (cases "i < length data")
    case False
    then show ?thesis using "1.prems" by (simp add: encodeAlphanumeric_loop.simps[of data i])
  next
    case True
    show ?thesis
    proof (cases "i + 1 < length data")
      case True
      show ?thesis
        using True \<open>i < length data\<close> "1.IH"(1)[OF \<open>i < length data\<close> refl True refl refl] "1.prems" set_toBits
        by (subst encodeAlphanumeric_loop.simps) (simp add: Let_def)
    next
      case False
      show ?thesis
        using False True "1.IH"(2)[OF True refl False] "1.prems" set_toBits
        by (subst encodeAlphanumeric_loop.simps) (simp add: Let_def)
    qed
  qed
qed

lemma length_encodeByte_loop:
  "length (encodeByte_loop data bits) = length bits + 8 * length data"
  by (induction data bits rule: encodeByte_loop.induct) (simp_all add: length_toBits)

lemma set_encodeByte_loop:
  "set bits \<subseteq> {0, 1} \<Longrightarrow> set (encodeByte_loop data bits) \<subseteq> {0, 1}"
  using set_toBits by (induction data bits rule: encodeByte_loop.induct) simp_all

lemma set_encodeNumeric_loop:
  "set bits \<subseteq> {0, 1} \<Longrightarrow> set (encodeNumeric_loop data i bits) \<subseteq> {0, 1}"
proof (induction data i bits rule: encodeNumeric_loop.induct)
  case (1 data i bits)
  show ?case
  proof (cases "i < length data")
    case False
    then show ?thesis using "1.prems" by (simp add: encodeNumeric_loop.simps[of data i])
  next
    case True
    show ?thesis
      using True "1.IH"[OF True refl refl] "1.prems" set_toBits
      by (subst encodeNumeric_loop.simps) (simp add: Let_def)
  qed
qed

section \<open>Properties of mode selection\<close>

lemma alphanumericChars_ranges:
  "alphanumericChars = [48..<58] @ [65..<91] @ [32, 36, 37, 42, 43, 45, 46, 47, 58]"
  by (simp add: alphanumericChars_def str_def upt_rec_numeral)

lemma isAlphanumericChar_iff:
  "isAlphanumericChar c \<longleftrightarrow> c \<in> {48..57} \<union> {65..90} \<union> {32, 36, 37, 42, 43, 45, 46, 47, 58}"
  by (simp add: isAlphanumericChar_def disj_ac)

lemma set_alphanumericChars:
  "set alphanumericChars = {48..57} \<union> {65..90} \<union> {32, 36, 37, 42, 43, 45, 46, 47, 58}"
proof -
  have i1: "{48..<58} = {48..57::nat}" by auto
  have i2: "{65..<91} = {65..90::nat}" by auto
  show ?thesis
    unfolding alphanumericChars_ranges by (simp only: set_append set_upt i1 i2 list.set Un_assoc)
qed

lemma isAlphanumericChar_table: "isAlphanumericChar c \<longleftrightarrow> c \<in> set alphanumericChars"
  by (simp only: isAlphanumericChar_iff set_alphanumericChars)

lemma length_alphanumericChars: "length alphanumericChars = 45"
  by (simp add: alphanumericChars_ranges)

lemma distinct_alphanumericChars: "distinct alphanumericChars"
  by (simp add: alphanumericChars_ranges)

lemma isDigit_imp_alnum: "isDigit c \<Longrightarrow> isAlphanumericChar c"
  by (simp add: isDigit_def isAlphanumericChar_def)

lemma list_all_isDigit_alnum: "list_all isDigit data \<Longrightarrow> list_all isAlphanumericChar data"
  by (induction data) (simp_all add: isDigit_imp_alnum)

lemma str_123: "str ''123'' = [49, 50, 51]"
  by (simp add: str_def)

lemma isDigit_range: "isDigit c \<Longrightarrow> 0 \<le> int c - 48 \<and> int c - 48 \<le> 9"
  by (auto simp: isDigit_def)

lemma determineVersion_1L: "determineVersion (str ''1'') L = Inr 1"
  by code_simp

lemma encodeData_1: "encodeData (str ''1'') = toBits 1 4 @ toBits 1 10 @ toBits 1 4"
  by code_simp

section \<open>Properties of the matrix operations\<close>

lemma fold_invariant:
  assumes "P s" and "\<And>a t. a \<in> set xs \<Longrightarrow> P t \<Longrightarrow> P (f a t)"
  shows "P (fold f xs s)"
  using assms by (induction xs arbitrary: s) simp_all

lemma square_setModule: "square n m \<Longrightarrow> square n (setModule m x y b)"
proof -
  assume s: "square n m"
  show ?thesis
  proof (cases "y < length m")
    case False
    then show ?thesis using s by (simp add: setModule_def list_update_beyond)
  next
    case True
    then have "length ((m ! y)[x := b]) = n"
      using s by (simp add: square_def list_all_length)
    then show ?thesis
      using s True by (auto simp: square_def setModule_def list_all_length nth_list_update)
  qed
qed

lemma square_initializeMatrix: "square n (initializeMatrix n)"
  by (simp add: square_def initializeMatrix_def list_all_length)

lemma square_addFinderPattern: "square n m \<Longrightarrow> square n (addFinderPattern n sx sy m)"
  unfolding addFinderPattern_def
  by (intro fold_invariant[where P="square n"]) (simp_all add: square_setModule)

lemma square_addFinderPatterns: "square n m \<Longrightarrow> square n (addFinderPatterns n m)"
  by (simp add: addFinderPatterns_def square_addFinderPattern)

lemma square_addSeparator: "square n m \<Longrightarrow> square n (addSeparator n sx sy w h m)"
  unfolding addSeparator_def
  by (intro fold_invariant[where P="square n"]) (simp_all add: square_setModule)

lemma square_addSeparators: "square n m \<Longrightarrow> square n (addSeparators n m)"
  by (simp add: addSeparators_def square_addSeparator)

lemma square_addAlignmentPattern: "square n m \<Longrightarrow> square n (addAlignmentPattern n cx cy m)"
  unfolding addAlignmentPattern_def
  by (intro fold_invariant[where P="square n"]) (simp_all add: square_setModule)

lemma square_addAlignmentPatterns: "square n m \<Longrightarrow> square n (addAlignmentPatterns v n m)"
  by (simp add: addAlignmentPatterns_def getAlignmentPatternPositions_def Let_def
        square_addAlignmentPattern)

lemma square_addTimingPatterns: "square n m \<Longrightarrow> square n (addTimingPatterns n m)"
  unfolding addTimingPatterns_def Let_def
  by (intro fold_invariant[where P="square n"]) (simp_all add: square_setModule)

lemma square_addDarkModule: "square n m \<Longrightarrow> square n (addDarkModule v n m)"
  by (simp add: addDarkModule_def Let_def square_setModule)

lemma square_placeCell:
  "square n (fst st) \<Longrightarrow> square n (fst (placeCell n d col up count c st))"
  by (simp add: placeCell_def Let_def square_setModule)

lemma square_placeColumn:
  "square n (fst st) \<Longrightarrow> square n (fst (placeColumn n d col up st))"
  unfolding placeColumn_def
  by (intro fold_invariant[where P="\<lambda>t. square n (fst t)"]) (simp_all add: square_placeCell)

lemma square_placeDataModules_loop:
  "square n (fst st) \<Longrightarrow> square n (fst (placeDataModules_loop n d col up st))"
proof (induction n d col up st rule: placeDataModules_loop.induct)
  case (1 n d col up st)
  show ?case
  proof (cases "col > 0")
    case False
    then show ?thesis using "1.prems" by (subst placeDataModules_loop.simps) simp
  next
    case True
    let ?c = "if col = 6 then col - 1 else col"
    let ?st = "placeColumn n d ?c up st"
    have s: "square n (fst ?st)" using "1.prems" by (rule square_placeColumn)
    show ?thesis
    proof (cases "?c < 2")
      case True
      then show ?thesis using s \<open>col > 0\<close>
        by (subst placeDataModules_loop.simps) (simp add: Let_def)
    next
      case False
      have "square n (fst (placeDataModules_loop n d (?c - 2) (\<not> up) ?st))"
        using "1.IH"[OF True refl refl False s] .
      then show ?thesis using False \<open>col > 0\<close>
        by (subst placeDataModules_loop.simps) (simp add: Let_def)
    qed
  qed
qed

lemma square_placeDataModules: "square n m \<Longrightarrow> square n (placeDataModules n d m)"
  unfolding placeDataModules_def by (rule square_placeDataModules_loop) simp

lemma square_buildMatrix: "square (getModuleCount v) (buildMatrix data v)"
  unfolding buildMatrix_def Let_def reserveFormatInfo_def reserveVersionInfo_def if_cancel
  by (intro square_placeDataModules square_addDarkModule square_addTimingPatterns
        square_addAlignmentPatterns square_addSeparators square_addFinderPatterns
        square_initializeMatrix)

lemma square_applyMaskToMatrix: "square n m \<Longrightarrow> square n (applyMaskToMatrix n m p)"
  unfolding applyMaskToMatrix_def
  by (intro fold_invariant[where P="square n"]) (simp_all add: square_setModule)

lemma setModule_other:
  "x \<noteq> x0 \<or> y \<noteq> y0 \<Longrightarrow> setModule m x y b ! y0 ! x0 = m ! y0 ! x0"
proof (cases "y = y0")
  case False
  then show ?thesis by (simp add: setModule_def)
next
  case True
  assume "x \<noteq> x0 \<or> y \<noteq> y0"
  with True have ne: "x \<noteq> x0" by simp
  show ?thesis
  proof (cases "y < length m")
    case True
    then show ?thesis using ne \<open>y = y0\<close> by (simp add: setModule_def)
  next
    case False
    then show ?thesis by (simp add: setModule_def list_update_beyond)
  qed
qed

lemma setModule_same:
  "y < length m \<Longrightarrow> x < length (m ! y) \<Longrightarrow> setModule m x y b ! y ! x = b"
  by (simp add: setModule_def)

lemma applyMaskToMatrix_frame:
  "\<not> isDataModule n x0 y0 \<Longrightarrow> applyMaskToMatrix n m p ! y0 ! x0 = m ! y0 ! x0"
proof -
  assume nd: "\<not> isDataModule n x0 y0"
  have step: "(if isDataModule n x y \<and> shouldApplyMask x y p
        then setModule t x y (\<not> t ! y ! x) else t) ! y0 ! x0 = m ! y0 ! x0"
    if "t ! y0 ! x0 = m ! y0 ! x0" for x y t
  proof (cases "isDataModule n x y \<and> shouldApplyMask x y p")
    case False
    show ?thesis using that by (simp only: False if_False)
  next
    case True
    then have ne: "x \<noteq> x0 \<or> y \<noteq> y0" using nd by auto
    show ?thesis using that True by (simp add: setModule_other[OF ne])
  qed
  show ?thesis
    unfolding applyMaskToMatrix_def
    by (intro fold_invariant[where P="\<lambda>t. t ! y0 ! x0 = m ! y0 ! x0"]) (simp_all add: step)
qed

lemma mult_mod_six:
  "(x * y) mod 2 = ((x mod 6) * (y mod 6)) mod (2::nat)"
  "(x * y) mod 3 = ((x mod 6) * (y mod 6)) mod (3::nat)"
proof -
  have a: "(x mod 6) mod 2 = x mod 2" "(y mod 6) mod 2 = y mod 2"
    by (simp_all add: mod_mod_cancel)
  have b: "(x mod 6) mod 3 = x mod 3" "(y mod 6) mod 3 = y mod 3"
    by (simp_all add: mod_mod_cancel)
  show "(x * y) mod 2 = ((x mod 6) * (y mod 6)) mod (2::nat)"
    using mod_mult_eq[of x 2 y] mod_mult_eq[of "x mod 6" 2 "y mod 6"] a by simp
  show "(x * y) mod 3 = ((x mod 6) * (y mod 6)) mod (3::nat)"
    using mod_mult_eq[of x 3 y] mod_mult_eq[of "x mod 6" 3 "y mod 6"] b by simp
qed

text \<open>
  The products of masks 5, 6 and 7 are only used modulo 2 and 3, so the coordinates can
  be reduced modulo 6 first.  This form is the one used to evaluate \<open>shouldApplyMask\<close>
  on concrete matrices.
\<close>

lemma shouldApplyMask_reduced [code]:
  "shouldApplyMask x y pattern =
     (if pattern = 0 then (x + y) mod 2 = 0
      else if pattern = 1 then y mod 2 = 0
      else if pattern = 2 then x mod 3 = 0
      else if pattern = 3 then (x + y) mod 3 = 0
      else if pattern = 4 then (y div 2 + x div 3) mod 2 = 0
      else if pattern = 5 then ((x mod 6) * (y mod 6)) mod 2 + ((x mod 6) * (y mod 6)) mod 3 = 0
      else if pattern = 6 then (((x mod 6) * (y mod 6)) mod 2 + ((x mod 6) * (y mod 6)) mod 3) mod 2 = 0
      else if pattern = 7 then ((x + y) mod 2 + ((x mod 6) * (y mod 6)) mod 3) mod 2 = 0
      else False)"
  unfolding shouldApplyMask_def mult_mod_six[symmetric] by (rule refl)

lemma selectBest_fold:
  "\<exists>b. fold (selectStep n m) [0..<Suc j] (0, None)
          = (b, Some (calculateMaskPenalty n (applyMaskToMatrix n m b)))
       \<and> b \<le> j
       \<and> (\<forall>k\<le>j. calculateMaskPenalty n (applyMaskToMatrix n m b)
                    \<le> calculateMaskPenalty n (applyMaskToMatrix n m k))
       \<and> (\<forall>k<b. calculateMaskPenalty n (applyMaskToMatrix n m b)
                    < calculateMaskPenalty n (applyMaskToMatrix n m k))"
proof (induction j)
  case 0
  show ?case by (simp add: selectStep_def Let_def)
next
  case (Suc j)
  let ?pen = "\<lambda>k. calculateMaskPenalty n (applyMaskToMatrix n m k)"
  from Suc obtain b where b: "fold (selectStep n m) [0..<Suc j] (0, None) = (b, Some (?pen b))"
    "b \<le> j" "\<forall>k\<le>j. ?pen b \<le> ?pen k" "\<forall>k<b. ?pen b < ?pen k"
    by blast
  have f: "fold (selectStep n m) [0..<Suc (Suc j)] (0, None)
            = selectStep n m (Suc j) (b, Some (?pen b))"
    using b(1) by (simp del: upt_Suc add: upt_Suc_append[of 0 "Suc j"])
  show ?case
  proof (cases "?pen (Suc j) < ?pen b")
    case True
    have s: "selectStep n m (Suc j) (b, Some (?pen b)) = (Suc j, Some (?pen (Suc j)))"
      using True by (simp add: selectStep_def Let_def)
    have "\<forall>k\<le>Suc j. ?pen (Suc j) \<le> ?pen k"
    proof (intro allI impI)
      fix k assume "k \<le> Suc j"
      show "?pen (Suc j) \<le> ?pen k"
      proof (cases "k = Suc j")
        case True then show ?thesis by simp
      next
        case False
        then have "k \<le> j" using \<open>k \<le> Suc j\<close> by simp
        then have "?pen b \<le> ?pen k" using b(3) by blast
        then show ?thesis using True by linarith
      qed
    qed
    moreover have "\<forall>k<Suc j. ?pen (Suc j) < ?pen k"
    proof (intro allI impI)
      fix k assume "k < Suc j"
      then have "?pen b \<le> ?pen k" using b(3) by simp
      then show "?pen (Suc j) < ?pen k" using True by linarith
    qed
    ultimately show ?thesis using f s by simp
  next
    case False
    have s: "selectStep n m (Suc j) (b, Some (?pen b)) = (b, Some (?pen b))"
      using False by (simp add: selectStep_def Let_def)
    have "\<forall>k\<le>Suc j. ?pen b \<le> ?pen k"
    proof (intro allI impI)
      fix k assume "k \<le> Suc j"
      show "?pen b \<le> ?pen k"
      proof (cases "k = Suc j")
        case True then show ?thesis using False by simp
      next
        case False
        then have "k \<le> j" using \<open>k \<le> Suc j\<close> by simp
        then show ?thesis using b(3) by blast
      qed
    qed
    then show ?thesis using f s b(2) b(4) by simp
  qed
qed

lemma selectBestMaskPattern_least:
  "selectBestMaskPattern n m < 8
   \<and> (\<forall>k<8. calculateMaskPenalty n (applyMaskToMatrix n m (selectBestMaskPattern n m))
                \<le> calculateMaskPenalty n (applyMaskToMatrix n m k))
   \<and> (\<forall>k<selectBestMaskPattern n m.
          calculateMaskPenalty n (applyMaskToMatrix n m (selectBestMaskPattern n m))
            < calculateMaskPenalty n (applyMaskToMatrix n m k))"
proof -
  have e: "[0..<8] = [0..<Suc 7]" by simp
  obtain b where b: "fold (selectStep n m) [0..<Suc 7] (0, None)
          = (b, Some (calculateMaskPenalty n (applyMaskToMatrix n m b)))"
       "b \<le> 7"
       "\<forall>k\<le>7. calculateMaskPenalty n (applyMaskToMatrix n m b)
                    \<le> calculateMaskPenalty n (applyMaskToMatrix n m k)"
       "\<forall>k<b. calculateMaskPenalty n (applyMaskToMatrix n m b)
                    < calculateMaskPenalty n (applyMaskToMatrix n m k)"
    using selectBest_fold[of n m 7] by blast
  have s: "selectBestMaskPattern n m = b"
    unfolding selectBestMaskPattern_def e by (simp only: b(1) fst_conv)
  show ?thesis unfolding s using b(2) b(3) b(4) by auto
qed

section \<open>Properties of the generator\<close>

lemma determineVersion_loop_Inr:
  "determineVersion_loop len lvl mode v0 = Inr v \<Longrightarrow>
     v0 \<le> v \<and> v \<le> 40 \<and> len \<le> getCapacity v lvl mode
     \<and> (\<forall>v'. v0 \<le> v' \<and> v' < v \<longrightarrow> getCapacity v' lvl mode < len)"
proof (induction len lvl mode v0 rule: determineVersion_loop.induct)
  case (1 len lvl mode v0)
  show ?case
  proof (cases "v0 \<le> 40")
    case False
    then show ?thesis using "1.prems" by (simp add: determineVersion_loop.simps[of len lvl mode v0])
  next
    case True
    show ?thesis
    proof (cases "len \<le> getCapacity v0 lvl mode")
      case True
      then show ?thesis using "1.prems" \<open>v0 \<le> 40\<close>
        by (simp add: determineVersion_loop.simps[of len lvl mode v0])
    next
      case False
      then have r: "determineVersion_loop len lvl mode (v0 + 1) = Inr v"
        using "1.prems" True by (simp add: determineVersion_loop.simps[of len lvl mode v0])
      note ih = "1.IH"[OF True refl False r]
      have "getCapacity v' lvl mode < len" if "v0 \<le> v'" "v' < v" for v'
      proof (cases "v' = v0")
        case True
        then show ?thesis using False by simp
      next
        case False
        then have "v0 + 1 \<le> v'" using that by simp
        then show ?thesis using ih that by blast
      qed
      moreover have "v0 \<le> v" using ih by simp
      ultimately show ?thesis using ih by blast
    qed
  qed
qed

lemma determineVersion_loop_Inl:
  "determineVersion_loop len lvl mode v0 = Inl e \<Longrightarrow>
     e = DataTooLong \<and> (\<forall>v'. v0 \<le> v' \<and> v' \<le> 40 \<longrightarrow> getCapacity v' lvl mode < len)"
proof (induction len lvl mode v0 rule: determineVersion_loop.induct)
  case (1 len lvl mode v0)
  show ?case
  proof (cases "v0 \<le> 40")
    case False
    then show ?thesis using "1.prems" by (simp add: determineVersion_loop.simps[of len lvl mode v0])
  next
    case True
    show ?thesis
    proof (cases "len \<le> getCapacity v0 lvl mode")
      case True
      then show ?thesis using "1.prems" \<open>v0 \<le> 40\<close>
        by (simp add: determineVersion_loop.simps[of len lvl mode v0])
    next
      case False
      then have r: "determineVersion_loop len lvl mode (v0 + 1) = Inl e"
        using "1.prems" True by (simp add: determineVersion_loop.simps[of len lvl mode v0])
      note ih = "1.IH"[OF True refl False r]
      have "getCapacity v' lvl mode < len" if "v0 \<le> v'" "v' \<le> 40" for v'
      proof (cases "v' = v0")
        case True
        then show ?thesis using False by simp
      next
        case False
        then have "v0 + 1 \<le> v'" using that by simp
        then show ?thesis using ih that by blast
      qed
      then show ?thesis using ih by blast
    qed
  qed
qed


lemma determineVersion_Nil: "determineVersion [] level = Inr 1"
  by (simp add: determineVersion_def determineVersion_loop.simps[of 0])

lemma determineVersion_Inr:
  "determineVersion data level = Inr v \<Longrightarrow>
     1 \<le> v \<and> v \<le> 40 \<and> length data \<le> getCapacity v level (detectDataMode data)
     \<and> (\<forall>v'. 1 \<le> v' \<and> v' < v \<longrightarrow> getCapacity v' level (detectDataMode data) < length data)"
  unfolding determineVersion_def Let_def by (rule determineVersion_loop_Inr)

lemma determineVersion_Inl:
  "determineVersion data level = Inl e \<Longrightarrow>
     e = DataTooLong
     \<and> (\<forall>v'. 1 \<le> v' \<and> v' \<le> 40 \<longrightarrow> getCapacity v' level (detectDataMode data) < length data)"
  unfolding determineVersion_def Let_def by (rule determineVersion_loop_Inl)

lemma generate_auto:
  "data \<noteq> [] \<Longrightarrow> \<not> truthy forcedVersion \<Longrightarrow> determineVersion data level = Inr v \<Longrightarrow>
     generate data level forcedVersion forcedMask = Inr (generated data level v forcedMask)"
  using determineVersion_Inr[of data level v]
  by (simp add: generate_def validateInput_def generated_def Let_def addFormatInfo_def
        addVersionInfo_def)

lemma generate_auto_fail:
  "\<not> truthy forcedVersion \<Longrightarrow> determineVersion data level = Inl e \<Longrightarrow>
     generate data level forcedVersion forcedMask = Inl e"
  by (simp add: generate_def)

lemma generate_forced:
  "data \<noteq> [] \<Longrightarrow> 1 \<le> v \<Longrightarrow> v \<le> 40 \<Longrightarrow>
     generate data level (Some v) forcedMask = Inr (generated data level v forcedMask)"
  by (simp add: generate_def validateInput_def generated_def Let_def addFormatInfo_def
        addVersionInfo_def truthy_def)

lemma generate_Nil: "generate [] level forcedVersion forcedMask = Inl EmptyInput"
  by (cases "truthy forcedVersion")
     (simp_all add: generate_def validateInput_def determineVersion_Nil)

lemma generate_errors:
  "generate data level forcedVersion forcedMask = Inl e \<Longrightarrow>
     e = DataTooLong \<or> e = VersionOutOfRange \<or> (e = EmptyInput \<and> data = [])"
proof (cases "truthy forcedVersion")
  case True
  assume "generate data level forcedVersion forcedMask = Inl e"
  with True show ?thesis
    by (auto simp: generate_def validateInput_def Let_def split: if_splits)
next
  case False
  assume g: "generate data level forcedVersion forcedMask = Inl e"
  show ?thesis
  proof (cases "determineVersion data level")
    case (Inl e')
    then show ?thesis using g False determineVersion_Inl[OF Inl] by (simp add: generate_def)
  next
    case (Inr v)
    then show ?thesis using g False
      by (auto simp: generate_def validateInput_def Let_def split: if_splits)
  qed
qed

lemma square_generated:
  "square (getModuleCount v) (matrix (generated data level v forcedMask))"
  by (simp add: generated_def Let_def applyMask_def square_applyMaskToMatrix square_buildMatrix)


lemma generate_mask:
  "generate data level forcedVersion forcedMask = Inr g \<Longrightarrow>
     modules g = getModuleCount (version g)
     \<and> matrix g = applyMask (modules g) (buildMatrix data (version g)) (maskPattern g)
     \<and> maskPattern g = (case forcedMask of Some p \<Rightarrow> p
           | None \<Rightarrow> selectBestMaskPattern (modules g) (buildMatrix data (version g)))"
  by (auto simp: generate_def Let_def addFormatInfo_def addVersionInfo_def
        split: sum.splits option.splits if_splits)

lemma validateCapacity_loop_Inl:
  "validateCapacity_loop len lv mo v0 = Inl e \<Longrightarrow> e = DATA_TOO_LONG"
proof (induction len lv mo v0 rule: validateCapacity_loop.induct)
  case (1 len lv mo v0)
  show ?case
  proof (cases "v0 \<le> 40")
    case False
    then show ?thesis using "1.prems" by (simp add: validateCapacity_loop.simps[of len lv mo v0])
  next
    case True
    show ?thesis
    proof (cases "len \<le> getCapacityForVersion v0 lv mo")
      case True
      then show ?thesis using "1.prems" \<open>v0 \<le> 40\<close>
        by (simp add: validateCapacity_loop.simps[of len lv mo v0])
    next
      case False
      then have "validateCapacity_loop len lv mo (v0 + 1) = Inl e"
        using "1.prems" True by (simp add: validateCapacity_loop.simps[of len lv mo v0])
      then show ?thesis by (rule "1.IH"[OF True refl False])
    qed
  qed
qed

lemma validateData_Some: "validateData data = Some e \<Longrightarrow> e = INVALID_DATA \<and> data = []"
  by (simp add: validateData_def split: if_splits)

lemma validateOptions_Some:
  "validateOptions options = Some e \<Longrightarrow> e = INVALID_VERSION \<or> e = INVALID_MASK_PATTERN"
  by (simp add: validateOptions_def validateVersion_def validateMaskPattern_def
        split: option.splits if_splits)

lemma validateCapacity_Inl: "validateCapacity data options = Inl e \<Longrightarrow> e = DATA_TOO_LONG"
  by (simp add: validateCapacity_def Let_def validateCapacity_loop_Inl split: if_splits)

lemma ValidationUtils_validateInput_errors:
  "ValidationUtils_validateInput data options = Inl e \<Longrightarrow>
     e = DATA_TOO_LONG \<or> e = INVALID_VERSION \<or> e = INVALID_MASK_PATTERN
     \<or> (e = INVALID_DATA \<and> data = [])"
proof -
  assume v: "ValidationUtils_validateInput data options = Inl e"
  show ?thesis
  proof (cases "validateData data")
    case (Some e')
    then have "e' = e" using v by (simp add: ValidationUtils_validateInput_def)
    then show ?thesis using validateData_Some[OF Some] by simp
  next
    case None
    note d = this
    show ?thesis
    proof (cases "validateOptions options")
      case (Some e')
      then have "e' = e" using v d by (simp add: ValidationUtils_validateInput_def)
      then show ?thesis using validateOptions_Some[OF Some] by blast
    next
      case None
      then have "validateCapacity data options = Inl e"
        using v d by (simp add: ValidationUtils_validateInput_def)
      then show ?thesis using validateCapacity_Inl by blast
    qed
  qed
qed

lemma QRCode_generate_errors:
  "QRCode_generate data options = Inl e \<Longrightarrow>
     e = DATA_TOO_LONG \<or> e = INVALID_VERSION \<or> e = INVALID_MASK_PATTERN
     \<or> e = DataTooLong \<or> e = VersionOutOfRange
     \<or> ((e = INVALID_DATA \<or> e = EmptyInput) \<and> data = [])"
proof (cases "ValidationUtils_validateInput data options")
  case (Inl e')
  assume "QRCode_generate data options = Inl e"
  then have "e' = e" using Inl by (simp add: QRCode_generate_def)
  then show ?thesis using ValidationUtils_validateInput_errors[OF Inl] by blast
next
  case (Inr sv)
  assume "QRCode_generate data options = Inl e"
  then have "generate data (int_errorCorrectionLevel (mergeOptions options))
      (if truthy sv then sv else int_version (mergeOptions options))
      (int_maskPattern (mergeOptions options)) = Inl e"
    using Inr by (simp add: QRCode_generate_def Let_def)
  from generate_errors[OF this] show ?thesis by blast
qed

lemma validateInput_mask_zero:
  "ValidationUtils_validateInput data (options\<lparr>opt_maskPattern := Some 0\<rparr>)
     = ValidationUtils_validateInput data (options\<lparr>opt_maskPattern := None\<rparr>)"
proof -
  have o: "validateOptions (options\<lparr>opt_maskPattern := Some 0\<rparr>)
             = validateOptions (options\<lparr>opt_maskPattern := None\<rparr>)"
    by (simp add: validateOptions_def validateMaskPattern_def split: option.splits)
  have c: "validateCapacity data (options\<lparr>opt_maskPattern := Some 0\<rparr>)
             = validateCapacity data (options\<lparr>opt_maskPattern := None\<rparr>)"
    by (simp add: validateCapacity_def Let_def)
  show ?thesis by (simp only: ValidationUtils_validateInput_def o c)
qed

lemma mergeOptions_mask_zero:
  "mergeOptions (options\<lparr>opt_maskPattern := Some 0\<rparr>)
     = mergeOptions (options\<lparr>opt_maskPattern := None\<rparr>)"
  by (simp add: mergeOptions_def truthy_def)

lemma QRCode_generate_mask:
  "QRCode_generate data options = Inr g \<Longrightarrow>
     modules g = getModuleCount (version g)
     \<and> matrix g = applyMask (modules g) (buildMatrix data (version g)) (maskPattern g)
     \<and> maskPattern g = (case int_maskPattern (mergeOptions options) of Some p \<Rightarrow> p
           | None \<Rightarrow> selectBestMaskPattern (modules g) (buildMatrix data (version g)))"
proof (cases "ValidationUtils_validateInput data options")
  case (Inl e)
  assume "QRCode_generate data options = Inr g"
  then show ?thesis using Inl by (simp add: QRCode_generate_def)
next
  case (Inr sv)
  assume "QRCode_generate data options = Inr g"
  then have "generate data (int_errorCorrectionLevel (mergeOptions options))
      (if truthy sv then sv else int_version (mergeOptions options))
      (int_maskPattern (mergeOptions options)) = Inr g"
    using Inr by (simp add: QRCode_generate_def Let_def)
  then show ?thesis by (rule generate_mask)
qed

lemma QRCode_generate_1:
  "QRCode_generate (str ''1'')
     \<lparr>opt_errorCorrectionLevel = None, opt_version = None, opt_maskPattern = Some 3\<rparr>
   = Inr (generated (str ''1'') M 1 (Some 3))"
proof -
  have ne: "str ''1'' \<noteq> []" by (simp add: str_def)
  have v: "ValidationUtils_validateInput (str ''1'')
     \<lparr>opt_errorCorrectionLevel = None, opt_version = None, opt_maskPattern = Some 3\<rparr> = Inr (Some 1)"
    by code_simp
  have m: "mergeOptions \<lparr>opt_errorCorrectionLevel = None, opt_version = None, opt_maskPattern = Some 3\<rparr>
     = \<lparr>int_errorCorrectionLevel = M, int_version = None, int_maskPattern = Some 3\<rparr>"
    by (simp add: mergeOptions_def truthy_def)
  show ?thesis
    using generate_forced[OF ne, of 1 M "Some 3"]
    by (simp add: QRCode_generate_def v m truthy_def)
qed

lemma generated_fields:
  "version (generated data level v forcedMask) = v"
  "modules (generated data level v forcedMask) = getModuleCount v"
  "maskPattern (generated data level v None)
     = selectBestMaskPattern (getModuleCount v) (buildMatrix data v)"
  "maskPattern (generated data level v (Some p)) = p"
  "matrix (generated data level v forcedMask)
     = applyMaskToMatrix (getModuleCount v) (buildMatrix data v)
         (maskPattern (generated data level v forcedMask))"
  by (simp_all add: generated_def Let_def applyMask_def)

lemma getModuleCount_1: "getModuleCount 1 = 21"
  by (simp add: getModuleCount_def)

lemma select54:
  "selectBestMaskPattern 21
     (buildMatrix (str ''400690259717754439762228138929403704056076955708562165'') 1) = 0"
  by code_simp

lemma four54:
  "spec_fourRulePenalty 21 (applyMaskToMatrix 21
      (buildMatrix (str ''400690259717754439762228138929403704056076955708562165'') 1) 6)
   < spec_fourRulePenalty 21 (applyMaskToMatrix 21
      (buildMatrix (str ''400690259717754439762228138929403704056076955708562165'') 1) 0)"
  by code_simp

lemma stamped_1:
  "(let stamped = addDarkModule 1 21 (addTimingPatterns 21 (addAlignmentPatterns 1 21
                    (addSeparators 21 (addFinderPatterns 21 (initializeMatrix 21)))))
    in stamped ! 0 ! 0 \<and> stamped ! 6 ! 8 \<and> stamped ! 13 ! 8)"
  by code_simp

lemma cells_1:
  "(let m = buildMatrix (str ''1'') 1 in \<not> m ! 0 ! 0 \<and> \<not> m ! 6 ! 8 \<and> \<not> m ! 13 ! 8)"
  by code_simp

lemma getCapacity_formula:
  "getCapacity v level mode = (case level of L \<Rightarrow> 10 | M \<Rightarrow> 8 | Q \<Rightarrow> 6 | H \<Rightarrow> 4) * v"
  by (cases level) (simp_all add: getCapacity_def)

lemma determineVersion_HELLO_WORLD: "determineVersion (str ''HELLO WORLD'') M = Inr 2"
  by code_simp

section \<open>Claims about mode selection and the bitstream\<close>

text \<open>
  Claim C4, as the code has it.  For every non-empty payload, \<open>detectDataMode\<close> returns
  numeric iff every character is a decimal digit; it returns alphanumeric iff every
  character is in the 45-character table \<open>0-9 A-Z space $ % * + - . / :\<close> and not every
  character is a digit; it returns byte iff some character is outside that table.  The
  table has 45 distinct entries.
\<close>

theorem detectDataMode_contract:
  "data \<noteq> [] \<Longrightarrow>
     (detectDataMode data = NUMERIC \<longleftrightarrow> list_all isDigit data) \<and>
     (detectDataMode data = ALPHANUMERIC \<longleftrightarrow>
        list_all (\<lambda>c. c \<in> set alphanumericChars) data \<and> \<not> list_all isDigit data) \<and>
     (detectDataMode data = BYTE \<longleftrightarrow> \<not> list_all (\<lambda>c. c \<in> set alphanumericChars) data) \<and>
     length alphanumericChars = 45 \<and> distinct alphanumericChars"
  using list_all_isDigit_alnum[of data]
  by (auto simp add: detectDataMode_def testPlus_def length_alphanumericChars
        distinct_alphanumericChars isAlphanumericChar_table[symmetric])

text \<open>The contract at the payload \<open>HELLO WORLD\<close>.\<close>

theorem detectDataMode_contract_witness:
  "str ''HELLO WORLD'' \<noteq> [] \<and> detectDataMode (str ''HELLO WORLD'') = ALPHANUMERIC
   \<and> \<not> list_all isDigit (str ''HELLO WORLD'')"
proof -
  have ne: "str ''HELLO WORLD'' \<noteq> []" by (simp add: str_def)
  have a: "list_all (\<lambda>c. c \<in> set alphanumericChars) (str ''HELLO WORLD'')"
    by (simp add: str_def isAlphanumericChar_table[symmetric] isAlphanumericChar_def)
  have d: "\<not> list_all isDigit (str ''HELLO WORLD'')"
    by (simp add: str_def isDigit_def)
  show ?thesis using detectDataMode_contract[OF ne] ne a d by blast
qed

text \<open>
  Claim C4 as it is worded says that the mode is alphanumeric iff every character is in
  the 45-character table.  The payload \<open>123\<close> is made of table characters and its mode
  is numeric.
\<close>

theorem detectDataMode_literal_counterexample:
  "\<not> (detectDataMode (str ''123'') = ALPHANUMERIC \<longleftrightarrow> list_all isAlphanumericChar (str ''123''))"
  by (simp add: str_123 detectDataMode_def testPlus_def isDigit_def isAlphanumericChar_def)

text \<open>
  Claim C7.  For every digit string, \<open>encodeNumeric\<close> packs a leading group of three
  digits into the 10 bits of its decimal value and goes on with the rest, packs a
  remainder of two digits into 7 bits and a remainder of one digit into 4 bits; the
  value of a group fits its width, and the number of bits is 10 for each full group
  plus 7 or 4 for the remainder.
\<close>

theorem encodeNumeric_packing:
  "list_all isDigit data \<Longrightarrow>
     (data = a # b # c # rest \<longrightarrow>
        encodeNumeric data =
          toBits (100 * (int a - 48) + 10 * (int b - 48) + (int c - 48)) 10 @ encodeNumeric rest
        \<and> 0 \<le> 100 * (int a - 48) + 10 * (int b - 48) + (int c - 48)
        \<and> 100 * (int a - 48) + 10 * (int b - 48) + (int c - 48) < 2 ^ 10) \<and>
     (data = [a, b] \<longrightarrow>
        encodeNumeric data = toBits (10 * (int a - 48) + (int b - 48)) 7
        \<and> 0 \<le> 10 * (int a - 48) + (int b - 48) \<and> 10 * (int a - 48) + (int b - 48) < 2 ^ 7) \<and>
     (data = [a] \<longrightarrow>
        encodeNumeric data = toBits (int a - 48) 4 \<and> 0 \<le> int a - 48 \<and> int a - 48 < 2 ^ 4) \<and>
     (data = [] \<longrightarrow> encodeNumeric data = []) \<and>
     length (encodeNumeric data) =
       10 * (length data div 3)
       + (if length data mod 3 = 2 then 7 else if length data mod 3 = 1 then 4 else 0)"
proof -
  assume d: "list_all isDigit data"
  have three: "data = a # b # c # rest \<longrightarrow>
        encodeNumeric data =
          toBits (100 * (int a - 48) + 10 * (int b - 48) + (int c - 48)) 10 @ encodeNumeric rest
        \<and> 0 \<le> 100 * (int a - 48) + 10 * (int b - 48) + (int c - 48)
        \<and> 100 * (int a - 48) + 10 * (int b - 48) + (int c - 48) < 2 ^ 10"
  proof
    assume e: "data = a # b # c # rest"
    with d have "isDigit a" "isDigit b" "isDigit c" by simp_all
    then have r: "0 \<le> int a - 48" "int a - 48 \<le> 9" "0 \<le> int b - 48" "int b - 48 \<le> 9"
        "0 \<le> int c - 48" "int c - 48 \<le> 9"
      using isDigit_range by blast+
    have "parseInt10 [a, b, c] = 100 * (int a - 48) + 10 * (int b - 48) + (int c - 48)"
      by (simp add: parseInt10_def)
    then have "encodeNumeric data =
          toBits (100 * (int a - 48) + 10 * (int b - 48) + (int c - 48)) 10 @ encodeNumeric rest"
      using encodeNumeric_three[of a b c rest] e by simp
    moreover have "0 \<le> 100 * (int a - 48) + 10 * (int b - 48) + (int c - 48)"
      using r by (intro add_nonneg_nonneg mult_nonneg_nonneg) simp_all
    moreover have "100 * (int a - 48) + 10 * (int b - 48) + (int c - 48) < 2 ^ 10"
      using r by simp
    ultimately show "encodeNumeric data =
          toBits (100 * (int a - 48) + 10 * (int b - 48) + (int c - 48)) 10 @ encodeNumeric rest
        \<and> 0 \<le> 100 * (int a - 48) + 10 * (int b - 48) + (int c - 48)
        \<and> 100 * (int a - 48) + 10 * (int b - 48) + (int c - 48) < 2 ^ 10"
      by blast
  qed
  have two: "data = [a, b] \<longrightarrow>
        encodeNumeric data = toBits (10 * (int a - 48) + (int b - 48)) 7
        \<and> 0 \<le> 10 * (int a - 48) + (int b - 48) \<and> 10 * (int a - 48) + (int b - 48) < 2 ^ 7"
  proof
    assume e: "data = [a, b]"
    with d have "isDigit a" "isDigit b" by simp_all
    then have r: "0 \<le> int a - 48" "int a - 48 \<le> 9" "0 \<le> int b - 48" "int b - 48 \<le> 9"
      using isDigit_range by blast+
    have "parseInt10 [a, b] = 10 * (int a - 48) + (int b - 48)"
      by (simp add: parseInt10_def)
    then have "encodeNumeric data = toBits (10 * (int a - 48) + (int b - 48)) 7"
      using encodeNumeric_two[of a b] e by simp
    moreover have "0 \<le> 10 * (int a - 48) + (int b - 48)"
      using r by (intro add_nonneg_nonneg mult_nonneg_nonneg) simp_all
    moreover have "10 * (int a - 48) + (int b - 48) < 2 ^ 7" using r by simp
    ultimately show "encodeNumeric data = toBits (10 * (int a - 48) + (int b - 48)) 7
        \<and> 0 \<le> 10 * (int a - 48) + (int b - 48) \<and> 10 * (int a - 48) + (int b - 48) < 2 ^ 7"
      by blast
  qed
  have one: "data = [a] \<longrightarrow>
        encodeNumeric data = toBits (int a - 48) 4 \<and> 0 \<le> int a - 48 \<and> int a - 48 < 2 ^ 4"
  proof
    assume e: "data = [a]"
    with d have "isDigit a" by simp
    then have r: "0 \<le> int a - 48" "int a - 48 \<le> 9" using isDigit_range by blast+
    have "parseInt10 [a] = int a - 48" by (simp add: parseInt10_def)
    then have "encodeNumeric data = toBits (int a - 48) 4"
      using encodeNumeric_one[of a] e by simp
    then show "encodeNumeric data = toBits (int a - 48) 4 \<and> 0 \<le> int a - 48 \<and> int a - 48 < 2 ^ 4"
      using r by simp
  qed
  have none: "data = [] \<longrightarrow> encodeNumeric data = []"
    by (simp add: encodeNumeric_Nil)
  show ?thesis using three two one none length_encodeNumeric[of data] by blast
qed

text \<open>The payload \<open>12345\<close>: the groups 123 and 45, hence 10 + 7 = 17 bits.\<close>

theorem encodeNumeric_packing_witness:
  "list_all isDigit (str ''12345'')
   \<and> encodeNumeric (str ''12345'') = toBits 123 10 @ toBits 45 7
   \<and> length (encodeNumeric (str ''12345'')) = 10 + 7"
proof -
  have s: "str ''12345'' = [49, 50, 51, 52, 53]" by (simp add: str_def)
  have d: "list_all isDigit [49, 50, 51, 52, 53]" by (simp add: isDigit_def)
  have d2: "list_all isDigit [52, 53]" by (simp add: isDigit_def)
  have a: "encodeNumeric [49, 50, 51, 52, 53] = toBits 123 10 @ encodeNumeric [52, 53]"
    using encodeNumeric_packing[OF d, of 49 50 51 "[52, 53]"] by simp
  have b: "encodeNumeric [52, 53] = toBits 45 7"
    using encodeNumeric_packing[OF d2, of 52 53] by simp
  have l: "length (encodeNumeric [49, 50, 51, 52, 53]) = 17"
    using encodeNumeric_packing[OF d, of 0 0 0 "[]"] by simp
  show ?thesis using s d a b l by simp
qed

text \<open>
  Claim C5, as the code has it.  For every payload, \<open>encodeData\<close> returns the 4-bit mode
  indicator, the character count indicator (10, 9 or 8 bits for numeric, alphanumeric
  and byte mode) and the packed payload bits, and nothing after them: a list of single
  bits whose length is the sum of these three parts.
\<close>

theorem encodeData_layout:
  "encodeData data =
     toBits (modeValue (detectDataMode data)) 4
     @ toBits (int (length data)) (getCharCountBits (detectDataMode data))
     @ (case detectDataMode data of
          NUMERIC \<Rightarrow> encodeNumeric data
        | ALPHANUMERIC \<Rightarrow> encodeAlphanumeric data
        | BYTE \<Rightarrow> encodeByte data
        | KANJI \<Rightarrow> [])
   \<and> length (encodeData data) =
       4 + getCharCountBits (detectDataMode data)
       + (case detectDataMode data of
            NUMERIC \<Rightarrow> 10 * (length data div 3)
                        + (if length data mod 3 = 2 then 7 else if length data mod 3 = 1 then 4 else 0)
          | ALPHANUMERIC \<Rightarrow> 11 * (length data div 2) + 6 * (length data mod 2)
          | BYTE \<Rightarrow> 8 * length data
          | KANJI \<Rightarrow> 0)
   \<and> set (encodeData data) \<subseteq> {0, 1}"
proof -
  have s1: "set (encodeNumeric data) \<subseteq> {0, 1}"
    unfolding encodeNumeric_def by (rule set_encodeNumeric_loop) simp
  have s2: "set (encodeAlphanumeric data) \<subseteq> {0, 1}"
    unfolding encodeAlphanumeric_def by (rule set_encodeAlphanumeric_loop) simp
  have s3: "set (encodeByte data) \<subseteq> {0, 1}"
    unfolding encodeByte_def by (rule set_encodeByte_loop) simp
  have l3: "length (encodeByte data) = 8 * length data"
    by (simp add: encodeByte_def length_encodeByte_loop)
  show ?thesis
    using s1 s2 s3 l3 set_toBits[of "modeValue (detectDataMode data)" 4]
      set_toBits[of "int (length data)" "getCharCountBits (detectDataMode data)"]
    by (cases "detectDataMode data")
       (simp_all add: encodeData_def Let_def length_toBits length_encodeNumeric
          length_encodeAlphanumeric)
qed

text \<open>
  Claim C5 as it is worded promises a codeword sequence padded to the data capacity of
  the chosen version and level.  The payload \<open>1\<close> at level L selects version 1, whose
  capacity in \<open>VERSION_SPECS\<close> is 152 bits, that is 19 codewords; \<open>encodeData\<close> returns
  18 bits, the last four being the digit, with no terminator and no padding.
\<close>

theorem encodeData_padding_counterexample:
  "determineVersion (str ''1'') L = Inr 1 \<and> VERSION_SPECS_capacity 1 L = Some 152
   \<and> encodeData (str ''1'') = toBits 1 4 @ toBits 1 10 @ toBits 1 4
   \<and> \<not> 8 dvd length (encodeData (str ''1''))
   \<and> length (encodeData (str ''1'')) \<noteq> 152 div 8
   \<and> length (encodeData (str ''1'')) \<noteq> 152"
proof -
  have len: "length (encodeData (str ''1'')) = 18"
    by (simp add: encodeData_1 length_toBits)
  have c: "VERSION_SPECS_capacity 1 L = Some 152"
    by (simp add: VERSION_SPECS_capacity_def)
  have n1: "\<not> 8 dvd length (encodeData (str ''1''))" unfolding len by simp
  have n2: "length (encodeData (str ''1'')) \<noteq> 152 div 8" unfolding len by simp
  have n3: "length (encodeData (str ''1'')) \<noteq> 152" unfolding len by simp
  show ?thesis using determineVersion_1L c encodeData_1 n1 n2 n3 by blast
qed

text \<open>
  Claim C1, as the code has it.  The error correction stage returns its input
  unchanged: no error correction codewords are computed, and the output is as long as
  the input.
\<close>

theorem addErrorCorrection_copy:
  "addErrorCorrection data = data \<and> length (addErrorCorrection data) = length data"
  by (simp add: addErrorCorrection_def)

text \<open>
  Claim C1 as it is worded says that the output of the stage is strictly longer than
  its input.  For the payload \<open>1\<close> at level L the encode succeeds and the stage returns
  the 18 bits it was given.
\<close>

theorem addErrorCorrection_counterexample:
  "generate (str ''1'') L None None = Inr (generated (str ''1'') L 1 None)
   \<and> length (encodeData (str ''1'')) = 18
   \<and> \<not> length (encodeData (str ''1'')) < length (addErrorCorrection (encodeData (str ''1'')))"
proof -
  have ne: "str ''1'' \<noteq> []" by (simp add: str_def)
  have g: "generate (str ''1'') L None None = Inr (generated (str ''1'') L 1 None)"
    using ne determineVersion_1L by (intro generate_auto) (simp_all add: truthy_def)
  have len: "length (encodeData (str ''1'')) = 18"
    by (simp add: encodeData_1 length_toBits)
  have "\<not> length (encodeData (str ''1'')) < length (addErrorCorrection (encodeData (str ''1'')))"
    by (simp add: addErrorCorrection_def)
  then show ?thesis using g len by blast
qed


section \<open>Claims about the generator\<close>

text \<open>
  Claim C3, as the code has it.  For a non-empty payload and no forced version,
  \<open>generate\<close> either returns a matrix of \<open>17 + 4 * version\<close> rows of \<open>17 + 4 * version\<close>
  modules, where the version is the smallest of 1..40 for which the payload length is
  at most 10, 8, 6 or 4 times the version, for the levels L, M, Q and H, or it fails
  with \<open>DataTooLong\<close>, and then no version of 1..40 satisfies this.  That product is the
  capacity of \<open>getCapacity\<close> for every mode; the capacity table is not consulted.
\<close>

theorem generate_smallest_version:
  "data \<noteq> [] \<Longrightarrow>
     (case generate data level None forcedMask of
        Inr g \<Rightarrow>
          1 \<le> version g \<and> version g \<le> 40
          \<and> length data
                \<le> (case level of L \<Rightarrow> 10 | M \<Rightarrow> 8 | Q \<Rightarrow> 6 | H \<Rightarrow> 4) * version g
          \<and> (\<forall>v. 1 \<le> v \<and> v < version g \<longrightarrow>
                (case level of L \<Rightarrow> 10 | M \<Rightarrow> 8 | Q \<Rightarrow> 6 | H \<Rightarrow> 4) * v < length data)
          \<and> modules g = 17 + 4 * version g
          \<and> length (matrix g) = 17 + 4 * version g
          \<and> list_all (\<lambda>row. length row = 17 + 4 * version g) (matrix g)
      | Inl e \<Rightarrow>
          e = DataTooLong
          \<and> (\<forall>v. 1 \<le> v \<and> v \<le> 40 \<longrightarrow>
                (case level of L \<Rightarrow> 10 | M \<Rightarrow> 8 | Q \<Rightarrow> 6 | H \<Rightarrow> 4) * v < length data))
     \<and> getCapacity v' level mode
           = (case level of L \<Rightarrow> 10 | M \<Rightarrow> 8 | Q \<Rightarrow> 6 | H \<Rightarrow> 4) * v'"
proof -
  assume ne: "data \<noteq> []"
  let ?k = "(case level of L \<Rightarrow> 10 | M \<Rightarrow> 8 | Q \<Rightarrow> 6 | H \<Rightarrow> 4) :: nat"
  have cap: "getCapacity u level mo = ?k * u" for u mo
    by (rule getCapacity_formula)
  have main: "(case generate data level None forcedMask of
        Inr g \<Rightarrow>
          1 \<le> version g \<and> version g \<le> 40
          \<and> length data \<le> ?k * version g
          \<and> (\<forall>v. 1 \<le> v \<and> v < version g \<longrightarrow> ?k * v < length data)
          \<and> modules g = 17 + 4 * version g
          \<and> length (matrix g) = 17 + 4 * version g
          \<and> list_all (\<lambda>row. length row = 17 + 4 * version g) (matrix g)
      | Inl e \<Rightarrow>
          e = DataTooLong
          \<and> (\<forall>v. 1 \<le> v \<and> v \<le> 40 \<longrightarrow> ?k * v < length data))"
  proof (cases "determineVersion data level")
    case (Inl e)
    have "generate data level None forcedMask = Inl e"
      using Inl by (intro generate_auto_fail) (simp_all add: truthy_def)
    then show ?thesis using determineVersion_Inl[OF Inl] by (simp add: cap)
  next
    case (Inr v)
    have g: "generate data level None forcedMask = Inr (generated data level v forcedMask)"
      using ne Inr by (intro generate_auto) (simp_all add: truthy_def)
    have v: "version (generated data level v forcedMask) = v"
      and n: "modules (generated data level v forcedMask) = 17 + 4 * v"
      by (simp_all add: generated_def Let_def getModuleCount_def)
    have sq: "square (17 + 4 * v) (matrix (generated data level v forcedMask))"
      using square_generated[of v data level forcedMask] by (simp add: getModuleCount_def)
    show ?thesis
      using determineVersion_Inr[OF Inr] sq by (simp add: g v n square_def cap)
  qed
  show ?thesis using main cap[of v' mode] by blast
qed

text \<open>The payload \<open>12345678901\<close> at level L: 11 digits, version 2, a matrix of 25 rows.\<close>

theorem generate_smallest_version_witness:
  "str ''12345678901'' \<noteq> []
   \<and> generate (str ''12345678901'') L None None = Inr (generated (str ''12345678901'') L 2 None)
   \<and> version (generated (str ''12345678901'') L 2 None) = 2
   \<and> length (matrix (generated (str ''12345678901'') L 2 None)) = 25"
proof -
  have ne: "str ''12345678901'' \<noteq> []" by (simp add: str_def)
  have dv: "determineVersion (str ''12345678901'') L = Inr 2" by code_simp
  have g: "generate (str ''12345678901'') L None None
             = Inr (generated (str ''12345678901'') L 2 None)"
    using ne dv by (intro generate_auto) (simp_all add: truthy_def)
  have v: "version (generated (str ''12345678901'') L 2 None) = 2"
    by (simp add: generated_def Let_def)
  show ?thesis
    using generate_smallest_version[OF ne, of L None] ne by (simp add: g v)
qed

text \<open>
  Claim C3 as it is worded measures the capacity for the detected mode and the
  requested level.  The payload \<open>HELLO WORLD\<close> at level M has 11 characters and
  alphanumeric mode; the capacity table gives 20 characters for version 1 in that mode
  at that level, so version 1 accommodates the payload, and \<open>generate\<close> resolves
  version 2, because its own capacity for version 1 at level M is 8 for every mode.
\<close>

theorem generate_smallest_version_counterexample:
  "generate (str ''HELLO WORLD'') M None None = Inr (generated (str ''HELLO WORLD'') M 2 None)
   \<and> version (generated (str ''HELLO WORLD'') M 2 None) = 2
   \<and> detectDataMode (str ''HELLO WORLD'') = ALPHANUMERIC
   \<and> length (str ''HELLO WORLD'') = 11
   \<and> CAPACITY_TABLE ALPHANUMERIC 1 M = Some 20
   \<and> getCapacity 1 M ALPHANUMERIC = 8"
proof -
  have ne: "str ''HELLO WORLD'' \<noteq> []" by (simp add: str_def)
  have g: "generate (str ''HELLO WORLD'') M None None
             = Inr (generated (str ''HELLO WORLD'') M 2 None)"
    using ne determineVersion_HELLO_WORLD by (intro generate_auto) (simp_all add: truthy_def)
  have v: "version (generated (str ''HELLO WORLD'') M 2 None) = 2"
    by (simp only: generated_fields)
  have d: "detectDataMode (str ''HELLO WORLD'') = ALPHANUMERIC" by code_simp
  have l: "length (str ''HELLO WORLD'') = 11" by (simp add: str_def)
  have t: "CAPACITY_TABLE ALPHANUMERIC 1 M = Some 20" by (simp add: CAPACITY_TABLE_def)
  have c: "getCapacity 1 M ALPHANUMERIC = 8" by (simp add: getCapacity_formula)
  show ?thesis using g v d l t c by blast
qed

text \<open>
  Claim C8.  For the empty payload, \<open>generate\<close> fails with the empty-input error
  whatever the level, version and mask are, and the public entry point fails in
  \<open>validateData\<close>; for a non-empty payload neither of them raises these errors.
\<close>

theorem empty_payload_rejected:
  "generate [] level forcedVersion forcedMask = Inl EmptyInput
   \<and> (data \<noteq> [] \<longrightarrow> generate data level forcedVersion forcedMask \<noteq> Inl EmptyInput)
   \<and> validateData [] = Some INVALID_DATA
   \<and> (data \<noteq> [] \<longrightarrow> validateData data = None)
   \<and> QRCode_generate [] options = Inl INVALID_DATA
   \<and> (data \<noteq> [] \<longrightarrow> QRCode_generate data options \<noteq> Inl INVALID_DATA
        \<and> QRCode_generate data options \<noteq> Inl EmptyInput)"
proof -
  have a: "data \<noteq> [] \<longrightarrow> generate data level forcedVersion forcedMask \<noteq> Inl EmptyInput"
    using generate_errors[of data level forcedVersion forcedMask EmptyInput] by auto
  have c: "data \<noteq> [] \<longrightarrow> QRCode_generate data options \<noteq> Inl INVALID_DATA
        \<and> QRCode_generate data options \<noteq> Inl EmptyInput"
    using QRCode_generate_errors[of data options INVALID_DATA]
      QRCode_generate_errors[of data options EmptyInput] by auto
  show ?thesis
    using a c
    by (simp add: generate_Nil validateData_def QRCode_generate_def
          ValidationUtils_validateInput_def)
qed

text \<open>The claim at the payload \<open>1\<close>.\<close>

theorem empty_payload_rejected_witness:
  "str ''1'' \<noteq> [] \<and> generate (str ''1'') L None None \<noteq> Inl EmptyInput
   \<and> validateData (str ''1'') = None"
  using empty_payload_rejected[of L None None "str ''1''" "\<lparr>opt_errorCorrectionLevel = None,
      opt_version = None, opt_maskPattern = None\<rparr>"]
  by (simp add: str_def)

text \<open>
  Claim C10.  For every mask index, every module in row 6, in column 6 or inside the
  three corner regions of \<open>isFinderPattern\<close> is not a data module for the positional
  check, and \<open>applyMaskToMatrix\<close> leaves every module that is not a data module
  unchanged.
\<close>

theorem mask_keeps_function_modules:
  "(y = 6 \<or> x = 6 \<or> isFinderPattern n x y \<longrightarrow> \<not> isDataModule n x y)
   \<and> (\<not> isDataModule n x y \<longrightarrow> applyMaskToMatrix n m pattern ! y ! x = m ! y ! x)"
  using applyMaskToMatrix_frame[of n x y m pattern] by (auto simp: isDataModule_def)

text \<open>The module (3, 3) of a version 1 symbol under mask 0.\<close>

theorem mask_keeps_function_modules_witness:
  "isFinderPattern 21 3 3 \<and> \<not> isDataModule 21 3 3
   \<and> applyMaskToMatrix 21 (buildMatrix (str ''1'') 1) 0 ! 3 ! 3 = buildMatrix (str ''1'') 1 ! 3 ! 3"
  using mask_keeps_function_modules[of 3 3 21 "buildMatrix (str ''1'') 1" 0]
  by (simp add: isFinderPattern_def)

text \<open>
  Claim C9.  \<open>QRCode.generate\<close> with \<open>maskPattern: 0\<close> is \<open>QRCode.generate\<close> without a
  mask pattern: \<open>mergeOptions\<close> turns the 0 into \<open>undefined\<close>, and the mask of the result
  is the one \<open>selectBestMaskPattern\<close> chooses.  A mask pattern from 1 to 7 is the mask of
  the result, applied to the matrix as given.
\<close>

theorem mask_zero_is_automatic:
  "QRCode_generate data (options\<lparr>opt_maskPattern := Some 0\<rparr>)
     = QRCode_generate data (options\<lparr>opt_maskPattern := None\<rparr>)
   \<and> int_maskPattern (mergeOptions (options\<lparr>opt_maskPattern := Some 0\<rparr>)) = None
   \<and> (QRCode_generate data (options\<lparr>opt_maskPattern := Some 0\<rparr>) = Inr g \<longrightarrow>
        maskPattern g = selectBestMaskPattern (modules g) (buildMatrix data (version g))
        \<and> matrix g = applyMask (modules g) (buildMatrix data (version g)) (maskPattern g))
   \<and> (1 \<le> k \<and> k \<le> 7 \<and> QRCode_generate data (options\<lparr>opt_maskPattern := Some k\<rparr>) = Inr g' \<longrightarrow>
        maskPattern g' = k
        \<and> matrix g' = applyMask (modules g') (buildMatrix data (version g')) k)"
proof -
  have a: "QRCode_generate data (options\<lparr>opt_maskPattern := Some 0\<rparr>)
     = QRCode_generate data (options\<lparr>opt_maskPattern := None\<rparr>)"
    by (simp only: QRCode_generate_def validateInput_mask_zero mergeOptions_mask_zero)
  have b: "int_maskPattern (mergeOptions (options\<lparr>opt_maskPattern := Some 0\<rparr>)) = None"
    by (simp add: mergeOptions_def truthy_def)
  have c: "QRCode_generate data (options\<lparr>opt_maskPattern := Some 0\<rparr>) = Inr g \<longrightarrow>
        maskPattern g = selectBestMaskPattern (modules g) (buildMatrix data (version g))
        \<and> matrix g = applyMask (modules g) (buildMatrix data (version g)) (maskPattern g)"
  proof
    assume "QRCode_generate data (options\<lparr>opt_maskPattern := Some 0\<rparr>) = Inr g"
    from QRCode_generate_mask[OF this] show
      "maskPattern g = selectBestMaskPattern (modules g) (buildMatrix data (version g))
        \<and> matrix g = applyMask (modules g) (buildMatrix data (version g)) (maskPattern g)"
      by (simp add: b)
  qed
  have d: "1 \<le> k \<and> k \<le> 7 \<and> QRCode_generate data (options\<lparr>opt_maskPattern := Some k\<rparr>) = Inr g' \<longrightarrow>
        maskPattern g' = k
        \<and> matrix g' = applyMask (modules g') (buildMatrix data (version g')) k"
  proof
    assume h: "1 \<le> k \<and> k \<le> 7 \<and> QRCode_generate data (options\<lparr>opt_maskPattern := Some k\<rparr>) = Inr g'"
    then have m: "int_maskPattern (mergeOptions (options\<lparr>opt_maskPattern := Some k\<rparr>)) = Some k"
      by (simp add: mergeOptions_def truthy_def)
    from h have "QRCode_generate data (options\<lparr>opt_maskPattern := Some k\<rparr>) = Inr g'" by simp
    from QRCode_generate_mask[OF this] have
      "matrix g' = applyMask (modules g') (buildMatrix data (version g')) (maskPattern g')"
      "maskPattern g' = k"
      by (simp_all add: m)
    then show "maskPattern g' = k
        \<and> matrix g' = applyMask (modules g') (buildMatrix data (version g')) k"
      by simp
  qed
  show ?thesis using a b c d by blast
qed

text \<open>The payload \<open>1\<close> with mask pattern 3, and with mask pattern 0.\<close>

theorem mask_zero_is_automatic_witness:
  "(1::nat) \<le> 3 \<and> (3::nat) \<le> 7
   \<and> QRCode_generate (str ''1'')
        \<lparr>opt_errorCorrectionLevel = None, opt_version = None, opt_maskPattern = Some 3\<rparr>
      = Inr (generated (str ''1'') M 1 (Some 3))
   \<and> maskPattern (generated (str ''1'') M 1 (Some 3)) = 3
   \<and> QRCode_generate (str ''1'')
        \<lparr>opt_errorCorrectionLevel = None, opt_version = None, opt_maskPattern = Some 0\<rparr>
      = QRCode_generate (str ''1'')
        \<lparr>opt_errorCorrectionLevel = None, opt_version = None, opt_maskPattern = None\<rparr>"
  using mask_zero_is_automatic[of "str ''1''"
      "\<lparr>opt_errorCorrectionLevel = None, opt_version = None, opt_maskPattern = None\<rparr>"
      undefined 3 "generated (str ''1'') M 1 (Some 3)"] QRCode_generate_1
  by simp

text \<open>
  Claim C6, as the code has it.  When no mask is forced, the mask of the result is the
  one \<open>selectBestMaskPattern\<close> returns for the matrix built before masking: an index
  below 8 whose masked copy has the lowest penalty, and the lowest such index, where the
  penalty of \<open>calculateMaskPenalty\<close> is the sum of two rules only, the runs of five or
  more modules of one colour and the 2 by 2 blocks of one colour.
\<close>

theorem selected_mask_two_rules:
  "(generate data level forcedVersion None = Inr g \<longrightarrow>
      maskPattern g = selectBestMaskPattern (modules g) (buildMatrix data (version g)))
   \<and> selectBestMaskPattern n m < 8
   \<and> (k < 8 \<longrightarrow>
        calculateMaskPenalty n (applyMaskToMatrix n m (selectBestMaskPattern n m))
          \<le> calculateMaskPenalty n (applyMaskToMatrix n m k))
   \<and> (k < selectBestMaskPattern n m \<longrightarrow>
        calculateMaskPenalty n (applyMaskToMatrix n m (selectBestMaskPattern n m))
          < calculateMaskPenalty n (applyMaskToMatrix n m k))
   \<and> calculateMaskPenalty n m' = calculateAdjacentPenalty n m' + calculateBlockPenalty n m'"
proof -
  have a: "generate data level forcedVersion None = Inr g \<longrightarrow>
      maskPattern g = selectBestMaskPattern (modules g) (buildMatrix data (version g))"
  proof
    assume "generate data level forcedVersion None = Inr g"
    from generate_mask[OF this]
    show "maskPattern g = selectBestMaskPattern (modules g) (buildMatrix data (version g))"
      by simp
  qed
  show ?thesis
    using a selectBestMaskPattern_least[of n m] by (simp add: calculateMaskPenalty_def)
qed


text \<open>The selection for the payload \<open>1\<close>, compared with mask 7.\<close>

theorem selected_mask_two_rules_witness:
  "(7::nat) < 8
   \<and> calculateMaskPenalty 21 (applyMaskToMatrix 21 (buildMatrix (str ''1'') 1)
         (selectBestMaskPattern 21 (buildMatrix (str ''1'') 1)))
       \<le> calculateMaskPenalty 21 (applyMaskToMatrix 21 (buildMatrix (str ''1'') 1) 7)
   \<and> selectBestMaskPattern 21 (buildMatrix (str ''1'') 1) < 8"
  using selected_mask_two_rules[of "str ''1''" L None undefined 21 "buildMatrix (str ''1'') 1" 7 "[]"]
  by simp

text \<open>
  Claim C6 as it is worded says that the selected mask has the lowest total under all
  four penalty rules.  For the 54-digit payload below with version 1 forced and no mask
  forced, the code selects mask 0, while under the four rules mask 6 has a strictly
  lower total than mask 0: the matrix masked with 0 has finder-like sequences that only
  rule 3 counts.
\<close>

theorem selected_mask_four_rules_counterexample:
  "generate (str ''400690259717754439762228138929403704056076955708562165'') L (Some 1) None
     = Inr (generated (str ''400690259717754439762228138929403704056076955708562165'') L 1 None)
   \<and> modules (generated (str ''400690259717754439762228138929403704056076955708562165'') L 1 None) = 21
   \<and> maskPattern (generated (str ''400690259717754439762228138929403704056076955708562165'') L 1 None) = 0
   \<and> spec_fourRulePenalty 21 (applyMaskToMatrix 21
        (buildMatrix (str ''400690259717754439762228138929403704056076955708562165'') 1) 6)
     < spec_fourRulePenalty 21 (applyMaskToMatrix 21
        (buildMatrix (str ''400690259717754439762228138929403704056076955708562165'') 1) 0)"
proof -
  have ne: "str ''400690259717754439762228138929403704056076955708562165'' \<noteq> []"
    by (simp add: str_def)
  have g: "generate (str ''400690259717754439762228138929403704056076955708562165'') L (Some 1) None
     = Inr (generated (str ''400690259717754439762228138929403704056076955708562165'') L 1 None)"
    using ne by (intro generate_forced) simp_all
  have n: "modules (generated (str ''400690259717754439762228138929403704056076955708562165'') L 1 None) = 21"
    by (simp only: generated_fields getModuleCount_1)
  have p: "maskPattern (generated (str ''400690259717754439762228138929403704056076955708562165'') L 1 None) = 0"
    by (simp only: generated_fields getModuleCount_1 select54)
  show ?thesis using g n p four54 by blast
qed

text \<open>
  Claim C2 says that in the finished matrix the finder patterns, the timing patterns
  and the dark module hold their fixed values.  For the payload \<open>1\<close> at level L (version
  1, 21 modules) the corner module (0, 0) of the top-left finder pattern, the timing
  module (8, 6) and the dark module (8, 13) are dark in the matrix as it is before
  \<open>placeDataModules\<close> and light in the matrix returned: \<open>placeDataModules\<close> writes
  into every module of every column but column 6, because \<open>isEmpty\<close> is always true,
  and masking leaves these modules alone.
\<close>

theorem structural_modules_overwritten:
  "generate (str ''1'') L None None = Inr (generated (str ''1'') L 1 None)
   \<and> (let stamped = addDarkModule 1 21 (addTimingPatterns 21 (addAlignmentPatterns 1 21
                       (addSeparators 21 (addFinderPatterns 21 (initializeMatrix 21)))));
            final = matrix (generated (str ''1'') L 1 None)
        in stamped ! 0 ! 0 \<and> \<not> final ! 0 ! 0
           \<and> stamped ! 6 ! 8 \<and> \<not> final ! 6 ! 8
           \<and> stamped ! 13 ! 8 \<and> \<not> final ! 13 ! 8)"
proof -
  have ne: "str ''1'' \<noteq> []" by (simp add: str_def)
  have g: "generate (str ''1'') L None None = Inr (generated (str ''1'') L 1 None)"
    using ne determineVersion_1L by (intro generate_auto) (simp_all add: truthy_def)
  have nd: "\<not> isDataModule 21 0 0" "\<not> isDataModule 21 8 6" "\<not> isDataModule 21 8 13"
    by (simp_all add: isDataModule_def isFinderPattern_def)
  have m: "matrix (generated (str ''1'') L 1 None) ! y ! x = buildMatrix (str ''1'') 1 ! y ! x"
    if "\<not> isDataModule 21 x y" for x y
    by (simp only: generated_fields(5) getModuleCount_1 applyMaskToMatrix_frame[OF that])
  note s = stamped_1[unfolded Let_def]
  note c = cells_1[unfolded Let_def]
  show ?thesis
    unfolding Let_def m[OF nd(1)] m[OF nd(2)] m[OF nd(3)] using g s c by blast
qed

end
